theory Spec2Isabelle
  imports Main
begin

section \<open>Python values used by the translation pipeline\<close>

text \<open>
  The development embeds \<^verbatim>\<open>src/translator/base_translator.py\<close> (class
  \<^verbatim>\<open>DocumentTranslator\<close>). The pipeline opens its files with \<^verbatim>\<open>encoding="utf-8"\<close>, so a
  file holds bytes and a Python \<^verbatim>\<open>str\<close> is held here by the bytes of its UTF-8 encoding:
  a \<^typ>\<open>string\<close> is a list of bytes, and a character is the one to four bytes that
  encode it. Reading a file decodes its bytes and writing encodes the text, which on
  well-formed text leaves the bytes as they are. The string methods the pipeline calls
  (\<^verbatim>\<open>strip\<close>, \<^verbatim>\<open>splitlines\<close>, \<^verbatim>\<open>join\<close>, slicing, \<^verbatim>\<open>int\<close>, \<^verbatim>\<open>str\<close>) are written out
  below on that representation.
\<close>

subsection \<open>Strings\<close>

definition NL :: char where
  "NL = CHR 0x0A"

definition DQ :: char where
  "DQ = CHR 0x22"

definition BS :: char where
  "BS = CHR 0x5C"

text \<open>The number of bytes of the character that starts with the byte \<open>c\<close>.\<close>

definition utf8_len :: "char \<Rightarrow> nat" where
  "utf8_len c =
     (if (of_char c :: nat) < 0xC0 then 1
      else if (of_char c :: nat) < 0xE0 then 2
      else if (of_char c :: nat) < 0xF0 then 3
      else 4)"

text \<open>The characters of a text, each as its bytes.\<close>

fun utf8_chars :: "string \<Rightarrow> string list" where
  "utf8_chars [] = []"
| "utf8_chars (c # cs) =
     (c # take (utf8_len c - 1) cs) # utf8_chars (drop (utf8_len c - 1) cs)"

text \<open>The code point of a character.\<close>

definition utf8_code :: "string \<Rightarrow> nat" where
  "utf8_code c =
     (case map of_char c of
        [a] \<Rightarrow> a
      | [a, b] \<Rightarrow> (a - 0xC0) * 64 + (b - 0x80)
      | [a, b, d] \<Rightarrow> (a - 0xE0) * 4096 + (b - 0x80) * 64 + (d - 0x80)
      | [a, b, d, e] \<Rightarrow> (a - 0xF0) * 262144 + (b - 0x80) * 4096 + (d - 0x80) * 64 + (e - 0x80)
      | _ \<Rightarrow> 0)"

text \<open>The bytes of a code point.\<close>

definition utf8_encode :: "nat \<Rightarrow> string" where
  "utf8_encode n =
     (if n < 0x80 then [char_of n]
      else if n < 0x800 then [char_of (0xC0 + n div 64), char_of (0x80 + n mod 64)]
      else if n < 0x10000
        then [char_of (0xE0 + n div 4096), char_of (0x80 + n div 64 mod 64),
              char_of (0x80 + n mod 64)]
      else [char_of (0xF0 + n div 262144), char_of (0x80 + n div 4096 mod 64),
            char_of (0x80 + n div 64 mod 64), char_of (0x80 + n mod 64)])"

text \<open>
  Bytes that the UTF-8 decoder accepts: no stray continuation byte, no overlong form, no
  surrogate and nothing beyond U+10FFFF. On other bytes reading the file raises
  \<^verbatim>\<open>UnicodeDecodeError\<close>.
\<close>

definition is_cont :: "char \<Rightarrow> bool" where
  "is_cont c \<longleftrightarrow> 0x80 \<le> (of_char c :: nat) \<and> (of_char c :: nat) < 0xC0"

fun utf8_valid :: "string \<Rightarrow> bool" where
  "utf8_valid [] = True"
| "utf8_valid (c # cs) =
     (if (of_char c :: nat) < 0x80 then utf8_valid cs
      else if 0xC2 \<le> (of_char c :: nat) \<and> (of_char c :: nat) < 0xE0 then
        (case cs of
           a # r \<Rightarrow> is_cont a \<and> utf8_valid r
         | _ \<Rightarrow> False)
      else if 0xE0 \<le> (of_char c :: nat) \<and> (of_char c :: nat) < 0xF0 then
        (case cs of
           a # b # r \<Rightarrow>
             is_cont a \<and> is_cont b
             \<and> (if (of_char c :: nat) = 0xE0 then 0xA0 \<le> (of_char a :: nat) else True)
             \<and> (if (of_char c :: nat) = 0xED then (of_char a :: nat) < 0xA0 else True)
             \<and> utf8_valid r
         | _ \<Rightarrow> False)
      else if 0xF0 \<le> (of_char c :: nat) \<and> (of_char c :: nat) < 0xF5 then
        (case cs of
           a # b # d # r \<Rightarrow>
             is_cont a \<and> is_cont b \<and> is_cont d
             \<and> (if (of_char c :: nat) = 0xF0 then 0x90 \<le> (of_char a :: nat) else True)
             \<and> (if (of_char c :: nat) = 0xF4 then (of_char a :: nat) < 0x90 else True)
             \<and> utf8_valid r
         | _ \<Rightarrow> False)
      else False)"

text \<open>\<^verbatim>\<open>str.isspace\<close> on one character.\<close>

definition is_space :: "string \<Rightarrow> bool" where
  "is_space c \<longleftrightarrow> List.member
     [[CHR 0x09], [CHR 0x0A], [CHR 0x0B], [CHR 0x0C], [CHR 0x0D],
      [CHR 0x1C], [CHR 0x1D], [CHR 0x1E], [CHR 0x1F], [CHR 0x20],
      [CHR 0xC2, CHR 0x85], [CHR 0xC2, CHR 0xA0], [CHR 0xE1, CHR 0x9A, CHR 0x80],
      [CHR 0xE2, CHR 0x80, CHR 0x80], [CHR 0xE2, CHR 0x80, CHR 0x81],
      [CHR 0xE2, CHR 0x80, CHR 0x82], [CHR 0xE2, CHR 0x80, CHR 0x83],
      [CHR 0xE2, CHR 0x80, CHR 0x84], [CHR 0xE2, CHR 0x80, CHR 0x85],
      [CHR 0xE2, CHR 0x80, CHR 0x86], [CHR 0xE2, CHR 0x80, CHR 0x87],
      [CHR 0xE2, CHR 0x80, CHR 0x88], [CHR 0xE2, CHR 0x80, CHR 0x89],
      [CHR 0xE2, CHR 0x80, CHR 0x8A], [CHR 0xE2, CHR 0x80, CHR 0xA8],
      [CHR 0xE2, CHR 0x80, CHR 0xA9], [CHR 0xE2, CHR 0x80, CHR 0xAF],
      [CHR 0xE2, CHR 0x81, CHR 0x9F], [CHR 0xE3, CHR 0x80, CHR 0x80]] c"

text \<open>\<^verbatim>\<open>s.strip()\<close>\<close>

definition strip :: "string \<Rightarrow> string" where
  "strip s = concat (rev (dropWhile is_space (rev (dropWhile is_space (utf8_chars s)))))"

text \<open>The characters at which \<^verbatim>\<open>str.splitlines\<close> ends a line.\<close>

definition is_linebreak :: "string \<Rightarrow> bool" where
  "is_linebreak c \<longleftrightarrow> List.member
     [[CHR 0x0A], [CHR 0x0B], [CHR 0x0C], [CHR 0x0D], [CHR 0x1C], [CHR 0x1D], [CHR 0x1E],
      [CHR 0xC2, CHR 0x85], [CHR 0xE2, CHR 0x80, CHR 0xA8], [CHR 0xE2, CHR 0x80, CHR 0xA9]] c"

text \<open>
  \<^verbatim>\<open>s.splitlines()\<close>: the first argument collects the characters of the current line in
  reverse. A carriage return followed by a line feed is one line end, and a line end at
  the very end of the text opens no further line.
\<close>

fun splitlines_from :: "string list \<Rightarrow> string list \<Rightarrow> string list" where
  "splitlines_from cur [] = (if cur = [] then [] else [concat (rev cur)])"
| "splitlines_from cur [c] =
     (if is_linebreak c then [concat (rev cur)] else [concat (rev (c # cur))])"
| "splitlines_from cur (c # d # cs) =
     (if c = [CHR 0x0D] \<and> d = [CHR 0x0A] then concat (rev cur) # splitlines_from [] cs
      else if is_linebreak c then concat (rev cur) # splitlines_from [] (d # cs)
      else splitlines_from (c # cur) (d # cs))"

definition splitlines :: "string \<Rightarrow> string list" where
  "splitlines s = splitlines_from [] (utf8_chars s)"

text \<open>\<^verbatim>\<open>sep.join(xs)\<close>\<close>

fun join :: "string \<Rightarrow> string list \<Rightarrow> string" where
  "join sep [] = []"
| "join sep [x] = x"
| "join sep (x # y # ys) = x @ sep @ join sep (y # ys)"

text \<open>The slices \<^verbatim>\<open>xs[-4:-1]\<close> and \<^verbatim>\<open>xs[-3:]\<close>; subtraction on \<^typ>\<open>nat\<close> stops at 0,
  as Python clips a slice bound that falls before the list.\<close>

definition slice_m4_m1 :: "'a list \<Rightarrow> 'a list" where
  "slice_m4_m1 xs = drop (length xs - 4) (take (length xs - 1) xs)"

definition slice_m3 :: "'a list \<Rightarrow> 'a list" where
  "slice_m3 xs = drop (length xs - 3) xs"

subsection \<open>Integers and their decimal text\<close>

definition is_digit :: "char \<Rightarrow> bool" where
  "is_digit c \<longleftrightarrow> 48 \<le> (of_char c :: nat) \<and> (of_char c :: nat) \<le> 57"

definition digit_val :: "char \<Rightarrow> nat" where
  "digit_val c = of_char c - 48"

definition digit_char :: "nat \<Rightarrow> char" where
  "digit_char d = char_of (48 + d)"

text \<open>\<^verbatim>\<open>str(n)\<close> for a natural number and for an integer.\<close>

fun str_nat :: "nat \<Rightarrow> string" where
  "str_nat n = (if n < 10 then [digit_char n] else str_nat (n div 10) @ [digit_char (n mod 10)])"

declare str_nat.simps [simp del]

definition str_int :: "int \<Rightarrow> string" where
  "str_int i = (if i < 0 then CHR ''-'' # str_nat (nat (- i)) else str_nat (nat i))"

text \<open>
  The digits of \<^verbatim>\<open>int(s)\<close>: decimal digits, with single underscores allowed between
  two digits. The flag says that the character before was a digit.
\<close>

fun py_digits :: "bool \<Rightarrow> nat \<Rightarrow> string \<Rightarrow> nat option" where
  "py_digits d acc [] = (if d then Some acc else None)"
| "py_digits d acc (c # cs) =
     (if is_digit c then py_digits True (acc * 10 + digit_val c) cs
      else if c = CHR ''_'' \<and> d \<and> cs \<noteq> [] \<and> is_digit (hd cs) then py_digits False acc cs
      else None)"

text \<open>
  \<^verbatim>\<open>int(s)\<close> first brings a text that is not plain ASCII to ASCII: a character from
  U+007F on becomes a blank when it is white space, the digit it stands for when it is a
  decimal digit of some script (the code points of the digits 0 of Unicode 14 are listed),
  and a question mark otherwise. An ASCII text is taken as it is.
\<close>

definition decimal_zeros :: "nat list" where
  "decimal_zeros =
     [0x30, 0x660, 0x6F0, 0x7C0, 0x966, 0x9E6, 0xA66, 0xAE6, 0xB66, 0xBE6, 0xC66, 0xCE6,
      0xD66, 0xDE6, 0xE50, 0xED0, 0xF20, 0x1040, 0x1090, 0x17E0, 0x1810, 0x1946, 0x19D0,
      0x1A80, 0x1A90, 0x1B50, 0x1BB0, 0x1C40, 0x1C50, 0xA620, 0xA8D0, 0xA900, 0xA9D0,
      0xA9F0, 0xAA50, 0xABF0, 0xFF10, 0x104A0, 0x10D30, 0x11066, 0x110F0, 0x11136,
      0x111D0, 0x112F0, 0x11450, 0x114D0, 0x11650, 0x116C0, 0x11730, 0x118E0, 0x11950,
      0x11C50, 0x11D50, 0x11DA0, 0x16A60, 0x16AC0, 0x16B50, 0x1D7CE, 0x1D7D8, 0x1D7E2,
      0x1D7EC, 0x1D7F6, 0x1E140, 0x1E2F0, 0x1E950, 0x1FBF0]"

definition decimal_digit :: "nat \<Rightarrow> nat option" where
  "decimal_digit cp =
     map_option (\<lambda>z. cp - z) (find (\<lambda>z. z \<le> cp \<and> cp < z + 10) decimal_zeros)"

definition int_char :: "string \<Rightarrow> char" where
  "int_char c =
     (if length c = 1 then (if (of_char (hd c) :: nat) < 127 then hd c else CHR ''?'')
      else if is_space c then CHR '' ''
      else (case decimal_digit (utf8_code c) of
              Some d \<Rightarrow> digit_char d
            | None \<Rightarrow> CHR ''?''))"

definition int_text :: "string \<Rightarrow> string" where
  "int_text s =
     (if list_all (\<lambda>c. (of_char c :: nat) < 128) s then s else map int_char (utf8_chars s))"

text \<open>The white space that \<^verbatim>\<open>int\<close> skips before and after the number, in the ASCII
  text.\<close>

definition is_c_space :: "char \<Rightarrow> bool" where
  "is_c_space c \<longleftrightarrow>
     List.member [CHR 0x09, CHR 0x0A, CHR 0x0B, CHR 0x0C, CHR 0x0D, CHR 0x20] c"

text \<open>
  \<^verbatim>\<open>int(s)\<close> for a string: \<open>None\<close> stands for the \<^verbatim>\<open>ValueError\<close> it raises. The
  interpreter's limit on the number of digits (\<^verbatim>\<open>sys.set_int_max_str_digits\<close>) is a setting
  of the run and is not part of the model, here and in \<open>str_int\<close>.
\<close>

definition py_int :: "string \<Rightarrow> int option" where
  "py_int s =
     (case rev (dropWhile is_c_space (rev (dropWhile is_c_space (int_text s)))) of
        [] \<Rightarrow> None
      | c # cs \<Rightarrow>
          if c = CHR ''-'' then map_option (\<lambda>n. - int n) (py_digits False 0 cs)
          else if c = CHR ''+'' then map_option int (py_digits False 0 cs)
          else map_option int (py_digits False 0 (c # cs)))"

subsection \<open>Exceptions\<close>

text \<open>
  The exception classes the pipeline meets. \<^verbatim>\<open>JSONDecodeError\<close>,
  \<^verbatim>\<open>UnicodeDecodeError\<close> and \<^verbatim>\<open>UnicodeEncodeError\<close> are subclasses of \<^verbatim>\<open>ValueError\<close>,
  and \<^verbatim>\<open>RecursionError\<close> is one of \<^verbatim>\<open>RuntimeError\<close>; \<^verbatim>\<open>OSError\<close> stands for its
  subclasses too.
\<close>

datatype exn =
    JSONDecodeError
  | UnicodeDecodeError
  | UnicodeEncodeError
  | ValueError
  | RecursionError
  | RuntimeError
  | UnboundLocalError
  | KeyError
  | TypeError
  | AttributeError
  | OSError

subsection \<open>JSON values\<close>

text \<open>
  What \<^verbatim>\<open>json.load\<close> returns. A JSON object is the list of its items in insertion
  order, with distinct keys. The unit store and the Failure Queue hold integers and
  strings only, so numbers are integers here; a text with a fraction, an exponent,
  \<^verbatim>\<open>NaN\<close> or \<^verbatim>\<open>Infinity\<close> holds a float and is outside the model.
\<close>

datatype json =
    JNull
  | JBool bool
  | JInt int
  | JStr string
  | JArr "json list"
  | JObj "(string \<times> json) list"

text \<open>Truth value of a Python object, as \<^verbatim>\<open>if not data\<close> reads it.\<close>

fun truthy :: "json \<Rightarrow> bool" where
  "truthy JNull = False"
| "truthy (JBool b) = b"
| "truthy (JInt n) = (n \<noteq> 0)"
| "truthy (JStr s) = (s \<noteq> [])"
| "truthy (JArr xs) = (xs \<noteq> [])"
| "truthy (JObj kvs) = (kvs \<noteq> [])"

text \<open>\<^verbatim>\<open>obj[key]\<close>: a missing key raises \<^verbatim>\<open>KeyError\<close>, and a value that is not a
  dict raises \<^verbatim>\<open>TypeError\<close> for a string key.\<close>

fun getitem :: "json \<Rightarrow> string \<Rightarrow> exn + json" where
  "getitem (JObj kvs) k = (case map_of kvs k of None \<Rightarrow> Inl KeyError | Some v \<Rightarrow> Inr v)"
| "getitem _ k = Inl TypeError"

text \<open>\<^verbatim>\<open>for entry in data\<close>: a list gives its elements, a dict its keys, a string its
  characters; the other values are not iterable.\<close>

fun py_iter :: "json \<Rightarrow> exn + json list" where
  "py_iter (JArr xs) = Inr xs"
| "py_iter (JObj kvs) = Inr (map (\<lambda>kv. JStr (fst kv)) kvs)"
| "py_iter (JStr s) = Inr (map JStr (utf8_chars s))"
| "py_iter _ = Inl TypeError"

text \<open>\<^verbatim>\<open>segment_dict.items()\<close>: only a dict has the method.\<close>

fun py_items :: "json \<Rightarrow> exn + (string \<times> json) list" where
  "py_items (JObj kvs) = Inr kvs"
| "py_items _ = Inl AttributeError"

subsection \<open>A model of the \<^verbatim>\<open>json\<close> module\<close>

text \<open>
  The \<^verbatim>\<open>json\<close> module is Python's own. The pipeline takes its functions as parameters
  (see \<open>env\<close> below), so the general theorems hold for whatever the library does,
  exceptions included. The functions of this subsection are one instance, used to run
  the pipeline on concrete texts: \<^verbatim>\<open>json.dumps(v, indent=4, ensure_ascii=False)\<close> and
  \<^verbatim>\<open>json.loads\<close> for texts made of \<^verbatim>\<open>null\<close>, \<^verbatim>\<open>true\<close>, \<^verbatim>\<open>false\<close>, integers, strings,
  arrays and objects. The limits an interpreter puts on the depth of nesting
  (\<^verbatim>\<open>RecursionError\<close>) and on the digits of an integer (\<^verbatim>\<open>ValueError\<close>) are settings of the
  run and not part of the instance.
\<close>

definition hex_char :: "nat \<Rightarrow> char" where
  "hex_char d = (if d < 10 then char_of (48 + d) else char_of (87 + d))"

text \<open>A byte of a string as the encoder writes it: with \<^verbatim>\<open>ensure_ascii=False\<close> only the
  quote, the backslash and the control characters are escaped.\<close>

definition escape_char :: "char \<Rightarrow> string" where
  "escape_char c =
     (if c = DQ then [BS, DQ]
      else if c = BS then [BS, BS]
      else if c = CHR 0x0A then [BS, CHR ''n'']
      else if c = CHR 0x0D then [BS, CHR ''r'']
      else if c = CHR 0x09 then [BS, CHR ''t'']
      else if c = CHR 0x08 then [BS, CHR ''b'']
      else if c = CHR 0x0C then [BS, CHR ''f'']
      else if (of_char c :: nat) < 32
        then [BS, CHR ''u'', CHR ''0'', CHR ''0'',
              hex_char ((of_char c :: nat) div 16), hex_char ((of_char c :: nat) mod 16)]
      else [c])"

definition quote :: "string \<Rightarrow> string" where
  "quote s = DQ # concat (map escape_char s) @ [DQ]"

definition indent :: "nat \<Rightarrow> string" where
  "indent lvl = replicate (4 * lvl) (CHR '' '')"

text \<open>The encoder at nesting depth \<open>lvl\<close>: items on lines of their own, four spaces a
  level, \<^verbatim>\<open>","\<close> between items and \<^verbatim>\<open>": "\<close> after a key.\<close>

fun dumps_at :: "nat \<Rightarrow> json \<Rightarrow> string" where
  "dumps_at lvl JNull = ''null''"
| "dumps_at lvl (JBool b) = (if b then ''true'' else ''false'')"
| "dumps_at lvl (JInt n) = str_int n"
| "dumps_at lvl (JStr s) = quote s"
| "dumps_at lvl (JArr xs) =
     (if xs = [] then ''[]''
      else ''['' @ NL # indent (Suc lvl)
           @ join ('','' @ NL # indent (Suc lvl)) (map (dumps_at (Suc lvl)) xs)
           @ NL # indent lvl @ '']'')"
| "dumps_at lvl (JObj kvs) =
     (if kvs = [] then ''{}''
      else ''{'' @ NL # indent (Suc lvl)
           @ join ('','' @ NL # indent (Suc lvl))
               (map (\<lambda>kv. quote (fst kv) @ '': '' @ dumps_at (Suc lvl) (snd kv)) kvs)
           @ NL # indent lvl @ ''}'')"

definition json_dumps_indent4 :: "json \<Rightarrow> string" where
  "json_dumps_indent4 v = dumps_at 0 v"

text \<open>The decoder. White space between tokens:\<close>

definition is_json_ws :: "char \<Rightarrow> bool" where
  "is_json_ws c \<longleftrightarrow> c = CHR 0x20 \<or> c = CHR 0x09 \<or> c = CHR 0x0A \<or> c = CHR 0x0D"

definition skip_ws :: "string \<Rightarrow> string" where
  "skip_ws s = dropWhile is_json_ws s"

definition hex_val :: "char \<Rightarrow> nat option" where
  "hex_val c =
     (let n = (of_char c :: nat) in
      if 48 \<le> n \<and> n \<le> 57 then Some (n - 48)
      else if 97 \<le> n \<and> n \<le> 102 then Some (n - 87)
      else if 65 \<le> n \<and> n \<le> 70 then Some (n - 55)
      else None)"

text \<open>The character a one-letter escape stands for.\<close>

definition simple_escape :: "char \<Rightarrow> char option" where
  "simple_escape e =
     (if e = DQ then Some DQ
      else if e = BS then Some BS
      else if e = CHR ''/'' then Some (CHR ''/'')
      else if e = CHR ''n'' then Some (CHR 0x0A)
      else if e = CHR ''r'' then Some (CHR 0x0D)
      else if e = CHR ''t'' then Some (CHR 0x09)
      else if e = CHR ''b'' then Some (CHR 0x08)
      else if e = CHR ''f'' then Some (CHR 0x0C)
      else None)"

text \<open>Four hexadecimal digits as a code point.\<close>

definition hex4 :: "char \<Rightarrow> char \<Rightarrow> char \<Rightarrow> char \<Rightarrow> nat option" where
  "hex4 a b c d =
     (case (hex_val a, hex_val b, hex_val c, hex_val d) of
        (Some x, Some y, Some z, Some w) \<Rightarrow> Some (4096 * x + 256 * y + 16 * z + w)
      | _ \<Rightarrow> None)"

text \<open>
  The bytes of a string after its opening quote, up to the closing one; the first
  argument collects them in reverse. A raw control character is refused. A \<^verbatim>\<open>\u\<close>
  escape gives the bytes of its code point; a high surrogate that is followed by the
  escape of a low one makes one code point with it. A surrogate that stays alone is
  kept: its three bytes are no well-formed UTF-8, as the \<^verbatim>\<open>str\<close> has no encoding.
\<close>

definition surrogates :: "nat \<Rightarrow> char \<Rightarrow> char \<Rightarrow> nat \<Rightarrow> bool" where
  "surrogates hi b u lo \<longleftrightarrow>
     0xD800 \<le> hi \<and> hi < 0xDC00 \<and> b = BS \<and> u = CHR ''u'' \<and> 0xDC00 \<le> lo \<and> lo < 0xE000"

definition paired :: "nat \<Rightarrow> nat \<Rightarrow> nat" where
  "paired hi lo = 0x10000 + (hi - 0xD800) * 1024 + (lo - 0xDC00)"

fun parse_chars :: "string \<Rightarrow> string \<Rightarrow> (string \<times> string) option" where
  "parse_chars acc [] = None"
| "parse_chars acc (c # cs) =
     (if c = DQ then Some (rev acc, cs)
      else if c = BS then
        (case cs of
           [] \<Rightarrow> None
         | e # r \<Rightarrow>
             if e = CHR ''u'' then
               (case r of
                  h1 # h2 # h3 # h4 # r' \<Rightarrow>
                    (case hex4 h1 h2 h3 h4 of
                       None \<Rightarrow> None
                     | Some cp \<Rightarrow>
                         (case r' of
                            b # u # g1 # g2 # g3 # g4 # r'' \<Rightarrow>
                              (case hex4 g1 g2 g3 g4 of
                                 None \<Rightarrow> parse_chars (rev (utf8_encode cp) @ acc) r'
                               | Some lo \<Rightarrow>
                                   if surrogates cp b u lo
                                   then parse_chars (rev (utf8_encode (paired cp lo)) @ acc) r''
                                   else parse_chars (rev (utf8_encode cp) @ acc) r')
                          | _ \<Rightarrow> parse_chars (rev (utf8_encode cp) @ acc) r'))
                | _ \<Rightarrow> None)
             else
               (case simple_escape e of
                  None \<Rightarrow> None
                | Some ch \<Rightarrow> parse_chars (ch # acc) r))
      else if (of_char c :: nat) < 32 then None
      else parse_chars (c # acc) cs)"

text \<open>An integer: an optional minus sign and digits with no leading zero. A fraction
  or an exponent makes a float, which this model does not hold.\<close>

definition parse_number :: "string \<Rightarrow> (json \<times> string) option" where
  "parse_number s =
     (let neg = (s \<noteq> [] \<and> hd s = CHR ''-'');
          s1 = (if neg then tl s else s);
          ds = takeWhile is_digit s1;
          r = dropWhile is_digit s1
      in if ds = [] then None
         else if 1 < length ds \<and> hd ds = CHR ''0'' then None
         else if r \<noteq> [] \<and> (hd r = CHR ''.'' \<or> hd r = CHR ''e'' \<or> hd r = CHR ''E'') then None
         else (case py_digits False 0 ds of
                 None \<Rightarrow> None
               | Some n \<Rightarrow> Some (JInt (if neg then - int n else int n), r)))"

text \<open>A key that comes twice keeps its first place and its last value, as in a
  Python dict.\<close>

fun obj_put :: "(string \<times> json) list \<Rightarrow> string \<Rightarrow> json \<Rightarrow> (string \<times> json) list" where
  "obj_put [] k v = [(k, v)]"
| "obj_put (p # ps) k v = (if fst p = k then (k, v) # ps else p # obj_put ps k v)"

text \<open>The recursive descent, on fuel: every call reads at least one character, so
  \<open>json_loads_text\<close> below starts it with more fuel than the text has characters.\<close>

fun parse_value :: "nat \<Rightarrow> string \<Rightarrow> (json \<times> string) option"
  and parse_elems :: "nat \<Rightarrow> json list \<Rightarrow> string \<Rightarrow> (json \<times> string) option"
  and parse_members :: "nat \<Rightarrow> (string \<times> json) list \<Rightarrow> string \<Rightarrow> (json \<times> string) option"
where
  "parse_value 0 s = None"
| "parse_value (Suc n) s =
     (case skip_ws s of
        [] \<Rightarrow> None
      | c # cs \<Rightarrow>
          if c = DQ then
            (case parse_chars [] cs of None \<Rightarrow> None | Some (t, r) \<Rightarrow> Some (JStr t, r))
          else if c = CHR ''['' then
            (case skip_ws cs of
               [] \<Rightarrow> None
             | d # r \<Rightarrow> if d = CHR '']'' then Some (JArr [], r) else parse_elems n [] cs)
          else if c = CHR ''{'' then
            (case skip_ws cs of
               [] \<Rightarrow> None
             | d # r \<Rightarrow> if d = CHR ''}'' then Some (JObj [], r) else parse_members n [] cs)
          else if take 4 (c # cs) = ''true'' then Some (JBool True, drop 4 (c # cs))
          else if take 5 (c # cs) = ''false'' then Some (JBool False, drop 5 (c # cs))
          else if take 4 (c # cs) = ''null'' then Some (JNull, drop 4 (c # cs))
          else parse_number (c # cs))"
| "parse_elems 0 acc s = None"
| "parse_elems (Suc n) acc s =
     (case parse_value n s of
        None \<Rightarrow> None
      | Some (v, r) \<Rightarrow>
          (case skip_ws r of
             [] \<Rightarrow> None
           | c # r' \<Rightarrow>
               if c = CHR '','' then parse_elems n (v # acc) r'
               else if c = CHR '']'' then Some (JArr (rev (v # acc)), r')
               else None))"
| "parse_members 0 acc s = None"
| "parse_members (Suc n) acc s =
     (case skip_ws s of
        [] \<Rightarrow> None
      | q # cs \<Rightarrow>
          if q \<noteq> DQ then None
          else
            (case parse_chars [] cs of
               None \<Rightarrow> None
             | Some (k, r) \<Rightarrow>
                 (case skip_ws r of
                    [] \<Rightarrow> None
                  | c # r1 \<Rightarrow>
                      if c \<noteq> CHR '':'' then None
                      else
                        (case parse_value n r1 of
                           None \<Rightarrow> None
                         | Some (v, r2) \<Rightarrow>
                             (case skip_ws r2 of
                                [] \<Rightarrow> None
                              | e # r3 \<Rightarrow>
                                  if e = CHR '','' then parse_members n (obj_put acc k v) r3
                                  else if e = CHR ''}'' then Some (JObj (obj_put acc k v), r3)
                                  else None)))))"

text \<open>\<^verbatim>\<open>json.loads(s)\<close> on the grammar: \<open>None\<close> stands for \<^verbatim>\<open>JSONDecodeError\<close>. Text
  after the value other than white space is an error.\<close>

definition json_loads_text :: "string \<Rightarrow> json option" where
  "json_loads_text s =
     (case parse_value (Suc (length s)) s of
        None \<Rightarrow> None
      | Some (v, r) \<Rightarrow> if skip_ws r = [] then Some v else None)"

text \<open>\<^verbatim>\<open>json.loads(s)\<close> for a \<^verbatim>\<open>str\<close>, and \<^verbatim>\<open>json.load(f)\<close> for a file that holds the
  given bytes, which are decoded first.\<close>

definition json_loads_str :: "string \<Rightarrow> exn + json" where
  "json_loads_str s =
     (case json_loads_text s of None \<Rightarrow> Inl JSONDecodeError | Some v \<Rightarrow> Inr v)"

definition json_load_file :: "string \<Rightarrow> exn + json" where
  "json_load_file bytes =
     (if utf8_valid bytes then json_loads_str bytes else Inl UnicodeDecodeError)"

text \<open>\<^verbatim>\<open>json.dump(v, f, ensure_ascii=False, indent=4)\<close>: the bytes written and the
  exception that ended the writing, if any. The text of a value whose strings are
  well-formed is written in full.\<close>

definition json_dump_file :: "json \<Rightarrow> string \<times> exn option" where
  "json_dump_file v = (json_dumps_indent4 v, None)"

section \<open>The pipeline's state and its collaborators\<close>

text \<open>
  The translation invoker (\<^verbatim>\<open>translate_text\<close>), the segmenter
  (\<^verbatim>\<open>stream_segment_json\<close>), the result recorder (\<^verbatim>\<open>process_translation_results\<close>)
  and \<^verbatim>\<open>clean_json\<close> live in modules outside \<^verbatim>\<open>base_translator.py\<close>; the pipeline
  takes them as parameters, together with the functions of the \<^verbatim>\<open>json\<close> module.

  \<^item> \<open>translate_text\<close> answers a call by its number (a language model need not answer
    the same request twice alike), the segment and the Context Window: an exception,
    or the text, where \<open>None\<close> is Python's \<^verbatim>\<open>None\<close>. Model, key and prompts are fixed
    for a run and left out.
  \<^item> \<open>stream_segment_json\<close> reads the text of the file at the given path (\<open>None\<close>: no
    such file) when it is called and answers \<^verbatim>\<open>None\<close> or the segments it will yield.
    The progress fraction that comes with a segment only feeds the progress callback
    and is left out, as are the callback and the log lines other than the two of \<open>msg\<close>.
  \<^item> \<open>process_translation_results\<close> works on the two files its module names beside
    the unit store, the result store and the queue file: it raises or returns a truth
    value, and leaves the files as it made them either way. The pipeline never looks
    into the result store, which is a list of recorded units here.
  \<^item> \<open>json_load\<close> is \<^verbatim>\<open>open\<close> and \<^verbatim>\<open>json.load(f)\<close> on a file that holds the given
    bytes: the value read, or the exception raised (\<^verbatim>\<open>JSONDecodeError\<close> for text that is
    no JSON, \<^verbatim>\<open>UnicodeDecodeError\<close> for bytes that are no UTF-8, \<^verbatim>\<open>RecursionError\<close>,
    \<^verbatim>\<open>OSError\<close>, and so on). \<open>json_loads\<close> is \<^verbatim>\<open>json.loads\<close> on a \<^verbatim>\<open>str\<close>.
  \<^item> \<open>json_dump\<close> is \<^verbatim>\<open>json.dump(v, f, ensure_ascii=False, indent=4)\<close>: the bytes
    it wrote and the exception that ended it, if any. \<open>json_dumps\<close> is
    \<^verbatim>\<open>json.dumps(v, ensure_ascii=False, indent=4)\<close>.
\<close>

type_synonym store = "(int \<times> string) list"

type_synonym files = "store \<times> string option"

record env =
  translate_text :: "nat \<Rightarrow> string \<Rightarrow> string \<Rightarrow> exn + string option"
  stream_segment_json :: "string option \<Rightarrow> string \<Rightarrow> string list option"
  process_translation_results :: "string \<Rightarrow> string option \<Rightarrow> files \<Rightarrow> (exn + bool) \<times> files"
  clean_json :: "string option \<Rightarrow> exn + string"
  json_load :: "string \<Rightarrow> exn + json"
  json_loads :: "string \<Rightarrow> exn + json"
  json_dump :: "json \<Rightarrow> string \<times> exn option"
  json_dumps :: "json \<Rightarrow> string"
  previous_text_default :: string

text \<open>The two log lines that mark the start of a recovery tier: line 113
  (\<^verbatim>\<open>Retrying translation for failed segments...\<close>) and line 109
  (\<^verbatim>\<open>Final attempt: Retranslating failed segments line by line...\<close>).\<close>

datatype msg = Retrying | FinalAttempt

text \<open>
  The state a run works on: the attributes \<^verbatim>\<open>self.previous_text\<close> and
  \<^verbatim>\<open>self.failed_status\<close>, the bytes of the files at \<^verbatim>\<open>SRC_JSON_PATH\<close> and
  \<^verbatim>\<open>FAILED_JSON_PATH\<close> (\<open>None\<close>: the file does not exist), the result store, the
  number of calls made to the invoker, the list \<^verbatim>\<open>combined_previous_texts\<close> and the log.
\<close>

record state =
  previous_text :: string
  failed_status :: bool
  src_file :: "string option"
  failed_file :: "string option"
  result_store :: store
  calls :: nat
  combined_previous_texts :: "string option list"
  log :: "msg list"

text \<open>The two files the recorder works on, read from the state and written back.\<close>

definition files_of :: "state \<Rightarrow> files" where
  "files_of st = (result_store st, failed_file st)"

definition with_files :: "state \<Rightarrow> files \<Rightarrow> state" where
  "with_files st fs = st\<lparr>result_store := fst fs, failed_file := snd fs\<rparr>"

text \<open>A call ends by raising an exception or by returning a value, in a state.\<close>

datatype 'a outcome = Raises exn state | Returns 'a state

text \<open>The state a call ends in.\<close>

fun state_of :: "'a outcome \<Rightarrow> state" where
  "state_of (Raises e s) = s"
| "state_of (Returns v s) = s"

text \<open>The local variable \<^verbatim>\<open>translated_text\<close>: it has no value until the first call of
  the invoker returns.\<close>

datatype pyvar = Unbound | Bound "string option"

text \<open>\<^verbatim>\<open>except (json.JSONDecodeError, ValueError, RuntimeError)\<close>, which catches the
  subclasses of the three too.\<close>

definition caught :: "exn \<Rightarrow> bool" where
  "caught e \<longleftrightarrow>
     e = JSONDecodeError \<or> e = UnicodeDecodeError \<or> e = UnicodeEncodeError \<or> e = ValueError
     \<or> e = RecursionError \<or> e = RuntimeError"

text \<open>Truth value of a text that may be \<^verbatim>\<open>None\<close>.\<close>

fun nonempty :: "string option \<Rightarrow> bool" where
  "nonempty None = False"
| "nonempty (Some s) = (s \<noteq> [])"

section \<open>The Failure Queue\<close>

text \<open>
  \<^verbatim>\<open>f.seek(0)\<close> and a write on a file opened with \<^verbatim>\<open>"r+"\<close>: the new bytes replace
  the old ones from the start, and what the file has beyond them stays.
\<close>

definition overwrite :: "string \<Rightarrow> string \<Rightarrow> string" where
  "overwrite old new = new @ drop (length new) old"

text \<open>
  The loop of \<^verbatim>\<open>_mark_segment_as_failed\<close> (lines 284 to 288). \<^verbatim>\<open>append\<close> is looked
  up before its argument is built, so a queue that is no list raises first; then
  \<^verbatim>\<open>int(count)\<close>, then \<^verbatim>\<open>value.strip()\<close>.
\<close>

fun append_failed :: "(string \<times> json) list \<Rightarrow> json \<Rightarrow> exn + json" where
  "append_failed [] failed_segments = Inr failed_segments"
| "append_failed ((count, val) # rest) failed_segments =
     (case failed_segments of
        JArr xs \<Rightarrow>
          (case py_int count of
             None \<Rightarrow> Inl ValueError
           | Some n \<Rightarrow>
               (case val of
                  JStr s \<Rightarrow>
                    append_failed rest
                      (JArr (xs @ [JObj [(''count'', JInt n), (''value'', JStr (strip s))]]))
                | _ \<Rightarrow> Inl AttributeError))
      | _ \<Rightarrow> Inl AttributeError)"

text \<open>
  \<^verbatim>\<open>_mark_segment_as_failed(segment)\<close>, lines 265 to 290. Line 275 catches
  \<^verbatim>\<open>JSONDecodeError\<close> only, as does line 281; any other exception leaves the function.
  \<^verbatim>\<open>json.dump\<close> at line 290 writes from the start of the file, which is not truncated.
\<close>

definition mark_segment_as_failed :: "env \<Rightarrow> string \<Rightarrow> state \<Rightarrow> unit outcome" where
  "mark_segment_as_failed env segment st =
     (let txt = (case failed_file st of None \<Rightarrow> ''[]'' | Some t \<Rightarrow> t);
          st1 = st\<lparr>failed_file := Some txt\<rparr>
      in case (case json_load env txt of
                 Inl e \<Rightarrow> if e = JSONDecodeError then Inr (JArr []) else Inl e
               | Inr v \<Rightarrow> Inr v) of
           Inl e \<Rightarrow> Raises e st1
         | Inr failed_segments \<Rightarrow>
             (case clean_json env (Some segment) of
                Inl e \<Rightarrow> if e = JSONDecodeError then Returns () st1 else Raises e st1
              | Inr clean_segment \<Rightarrow>
                  (case json_loads env clean_segment of
                     Inl e \<Rightarrow> if e = JSONDecodeError then Returns () st1 else Raises e st1
                   | Inr segment_dict \<Rightarrow>
                       (case py_items segment_dict of
                          Inl e \<Rightarrow> Raises e st1
                        | Inr kvs \<Rightarrow>
                            (case append_failed kvs failed_segments of
                               Inl e \<Rightarrow> Raises e st1
                             | Inr fs \<Rightarrow>
                                 (case json_dump env fs of
                                    (written, None) \<Rightarrow>
                                      Returns ()
                                        (st1\<lparr>failed_file := Some (overwrite txt written)\<rparr>)
                                  | (written, Some e) \<Rightarrow>
                                      Raises e
                                        (st1\<lparr>failed_file := Some (overwrite txt written)\<rparr>)))))))"

text \<open>The key \<^verbatim>\<open>json.dumps\<close> writes for a dict key: a list or a dict cannot be a key
  at all (\<^verbatim>\<open>TypeError\<close>, unhashable).\<close>

fun dict_key :: "json \<Rightarrow> exn + string" where
  "dict_key (JInt n) = Inr (str_int n)"
| "dict_key (JStr s) = Inr s"
| "dict_key (JBool b) = Inr (if b then ''true'' else ''false'')"
| "dict_key JNull = Inr ''null''"
| "dict_key _ = Inl TypeError"

text \<open>\<^verbatim>\<open>_convert_failed_segments_to_json(failed_segments)\<close>, lines 254 to 256.\<close>

definition convert_failed_segments_to_json :: "env \<Rightarrow> json \<Rightarrow> exn + string" where
  "convert_failed_segments_to_json env failed_segments =
     (case getitem failed_segments ''count'' of
        Inl e \<Rightarrow> Inl e
      | Inr count \<Rightarrow>
          (case getitem failed_segments ''value'' of
             Inl e \<Rightarrow> Inl e
           | Inr val \<Rightarrow>
               (case dict_key count of
                  Inl e \<Rightarrow> Inl e
                | Inr k \<Rightarrow> Inr (json_dumps env (JObj [(k, val)])))))"

section \<open>The primary pass\<close>

text \<open>
  The body of the \<^verbatim>\<open>try\<close> of lines 59 to 82 for one attempt: how it ends (an
  exception or the \<^verbatim>\<open>break\<close>), the variable \<^verbatim>\<open>translated_text\<close> and the state.
\<close>

definition primary_try :: "env \<Rightarrow> string \<Rightarrow> pyvar \<Rightarrow> state \<Rightarrow> (exn + unit) \<times> pyvar \<times> state" where
  "primary_try env segment tt st =
     (let st1 = st\<lparr>calls := Suc (calls st)\<rparr> in
      case translate_text env (calls st) segment (previous_text st) of
        Inl e \<Rightarrow> (Inl e, tt, st1)
      | Inr translated_text \<Rightarrow>
          if \<not> nonempty translated_text then (Inl ValueError, Bound translated_text, st1)
          else
            (case process_translation_results env segment translated_text (files_of st1) of
               (Inl e, fs) \<Rightarrow> (Inl e, Bound translated_text, with_files st1 fs)
             | (Inr b, fs) \<Rightarrow>
                 (case clean_json env translated_text of
                    Inl e \<Rightarrow> (Inl e, Bound translated_text, with_files st1 fs)
                  | Inr cleaned_text \<Rightarrow>
                      (let translated_lines = splitlines cleaned_text in
                       (Inr (), Bound translated_text,
                        (with_files st1 fs)
                           \<lparr>previous_text :=
                              (if 4 \<le> length translated_lines
                               then join [NL] (slice_m4_m1 translated_lines)
                               else previous_text_default env),
                            combined_previous_texts :=
                              combined_previous_texts st1 @ [translated_text]\<rparr>)))))"

text \<open>
  \<^verbatim>\<open>for retry_count in range(2)\<close> with its handler (lines 84 to 90) and its
  \<^verbatim>\<open>else\<close> (lines 92 to 95), which runs when no attempt reached the \<^verbatim>\<open>break\<close>.
  The handler reads \<^verbatim>\<open>translated_text\<close>; an exception it raises itself leaves the
  function.
\<close>

fun primary_attempts ::
  "env \<Rightarrow> string \<Rightarrow> nat list \<Rightarrow> string option \<Rightarrow> pyvar \<Rightarrow> state \<Rightarrow> pyvar outcome" where
  "primary_attempts env segment [] last_valid tt st =
     Returns tt
       (if nonempty last_valid
        then st\<lparr>combined_previous_texts := combined_previous_texts st @ [last_valid]\<rparr>
        else st)"
| "primary_attempts env segment (retry_count # rest) last_valid tt st =
     (case primary_try env segment tt st of
        (Inr _, tt1, st1) \<Rightarrow> Returns tt1 st1
      | (Inl e, tt1, st1) \<Rightarrow>
          if \<not> caught e then Raises e st1
          else
            (case tt1 of
               Unbound \<Rightarrow> Raises UnboundLocalError st1
             | Bound v \<Rightarrow>
                 if retry_count = 1 then
                   (case mark_segment_as_failed env segment st1 of
                      Raises e2 st2 \<Rightarrow> Raises e2 st2
                    | Returns _ st2 \<Rightarrow> primary_attempts env segment rest v tt1 st2)
                 else primary_attempts env segment rest v tt1 st1))"

text \<open>\<^verbatim>\<open>for segment, segment_progress in stream_generator()\<close>, lines 55 to 99.\<close>

fun primary_segments :: "env \<Rightarrow> string list \<Rightarrow> pyvar \<Rightarrow> state \<Rightarrow> pyvar outcome" where
  "primary_segments env [] tt st = Returns tt st"
| "primary_segments env (segment # segments) tt st =
     (case primary_attempts env segment [0, 1] None tt st of
        Raises e st1 \<Rightarrow> Raises e st1
      | Returns tt1 st1 \<Rightarrow> primary_segments env segments tt1 st1)"

section \<open>Recovery tier 1: batch retry\<close>

text \<open>
  The body of the \<^verbatim>\<open>try\<close> of lines 150 to 169 for one attempt; the truth value is
  \<^verbatim>\<open>has_translated_success\<close>.
\<close>

definition retry_try ::
  "env \<Rightarrow> string \<Rightarrow> pyvar \<Rightarrow> bool \<Rightarrow> state \<Rightarrow> (exn + unit) \<times> pyvar \<times> bool \<times> state" where
  "retry_try env segment tt has_translated_success st =
     (let st1 = st\<lparr>calls := Suc (calls st)\<rparr> in
      case translate_text env (calls st) segment (previous_text st) of
        Inl e \<Rightarrow> (Inl e, tt, has_translated_success, st1)
      | Inr translated_text \<Rightarrow>
          (case process_translation_results env segment translated_text (files_of st1) of
             (Inl e, fs) \<Rightarrow>
               (Inl e, Bound translated_text, has_translated_success, with_files st1 fs)
           | (Inr b, fs) \<Rightarrow>
               (case clean_json env translated_text of
                  Inl e \<Rightarrow>
                    (Inl e, Bound translated_text, has_translated_success \<or> b,
                     with_files st1 fs)
                | Inr cleaned_text \<Rightarrow>
                    (Inr (), Bound translated_text, has_translated_success \<or> b,
                     (with_files st1 fs)
                        \<lparr>previous_text := join [NL] (slice_m4_m1 (splitlines cleaned_text)),
                         combined_previous_texts :=
                           combined_previous_texts st1 @ [translated_text]\<rparr>))))"

text \<open>\<^verbatim>\<open>for retry_count in range(2)\<close> of lines 149 to 178: the handler only reads
  \<^verbatim>\<open>translated_text\<close>.\<close>

fun retry_attempts ::
  "env \<Rightarrow> string \<Rightarrow> nat list \<Rightarrow> string option \<Rightarrow> pyvar \<Rightarrow> bool \<Rightarrow> state
     \<Rightarrow> (pyvar \<times> bool) outcome" where
  "retry_attempts env segment [] last_valid tt has st =
     Returns (tt, has)
       (if nonempty last_valid
        then st\<lparr>combined_previous_texts := combined_previous_texts st @ [last_valid]\<rparr>
        else st)"
| "retry_attempts env segment (retry_count # rest) last_valid tt has st =
     (case retry_try env segment tt has st of
        (Inr _, tt1, has1, st1) \<Rightarrow> Returns (tt1, has1) st1
      | (Inl e, tt1, has1, st1) \<Rightarrow>
          if \<not> caught e then Raises e st1
          else
            (case tt1 of
               Unbound \<Rightarrow> Raises UnboundLocalError st1
             | Bound v \<Rightarrow> retry_attempts env segment rest v tt1 has1 st1))"

text \<open>\<^verbatim>\<open>for segment, segment_progress in stream_generator_failed()\<close>, lines 147 to 183.\<close>

fun retry_segments :: "env \<Rightarrow> string list \<Rightarrow> pyvar \<Rightarrow> bool \<Rightarrow> state \<Rightarrow> bool outcome" where
  "retry_segments env [] tt has st = Returns has st"
| "retry_segments env (segment # segments) tt has st =
     (case retry_attempts env segment [0, 1] None tt has st of
        Raises e st1 \<Rightarrow> Raises e st1
      | Returns (tt1, has1) st1 \<Rightarrow> retry_segments env segments tt1 has1 st1)"

text \<open>\<^verbatim>\<open>retranslate_failed_content\<close>, lines 112 to 183. Line 125 catches
  \<^verbatim>\<open>JSONDecodeError\<close> only. The segmenter is called on the queue file before line 143
  empties it.\<close>

definition retranslate_failed_content :: "env \<Rightarrow> state \<Rightarrow> bool outcome" where
  "retranslate_failed_content env st0 =
     (let st = st0\<lparr>log := log st0 @ [Retrying]\<rparr> in
      case failed_file st of
        None \<Rightarrow> Returns False st
      | Some txt \<Rightarrow>
          (case json_load env txt of
             Inl e \<Rightarrow> if e = JSONDecodeError then Returns False st else Raises e st
           | Inr data \<Rightarrow>
               if \<not> truthy data then Returns False st
               else
                 (case stream_segment_json env (failed_file st) (previous_text st) of
                    None \<Rightarrow> Returns False st
                  | Some segments \<Rightarrow>
                      retry_segments env segments Unbound False
                        (st\<lparr>failed_file := Some ''[]''\<rparr>))))"

text \<open>The loop of lines 102 to 105 over \<^verbatim>\<open>range(3)\<close>.\<close>

fun batch_retry_rounds :: "env \<Rightarrow> nat list \<Rightarrow> state \<Rightarrow> unit outcome" where
  "batch_retry_rounds env [] st = Returns () st"
| "batch_retry_rounds env (r # rounds) st =
     (if \<not> failed_status st then Returns () st
      else
        (case retranslate_failed_content env st of
           Raises e st1 \<Rightarrow> Raises e st1
         | Returns b st1 \<Rightarrow> batch_retry_rounds env rounds (st1\<lparr>failed_status := b\<rparr>)))"

section \<open>Recovery tier 2: line by line\<close>

text \<open>
  The body of the \<^verbatim>\<open>try\<close> of lines 212 to 233 for one attempt. On the \<^verbatim>\<open>break\<close> it
  gives \<^verbatim>\<open>last_valid_line_translation\<close>; \<^verbatim>\<open>strip\<close> on \<^verbatim>\<open>None\<close> raises
  \<^verbatim>\<open>AttributeError\<close>.
\<close>

definition lines_try :: "env \<Rightarrow> string \<Rightarrow> state \<Rightarrow> (exn + string) \<times> state" where
  "lines_try env text_failed st =
     (let st1 = st\<lparr>calls := Suc (calls st)\<rparr> in
      case translate_text env (calls st) text_failed (previous_text st) of
        Inl e \<Rightarrow> (Inl e, st1)
      | Inr translated_line \<Rightarrow>
          (case process_translation_results env text_failed translated_line (files_of st1) of
             (Inl e, fs) \<Rightarrow> (Inl e, with_files st1 fs)
           | (Inr b, fs) \<Rightarrow>
               (case translated_line of
                  None \<Rightarrow> (Inl AttributeError, with_files st1 fs)
                | Some t \<Rightarrow>
                    (let last_valid_line_translation = strip t;
                         lines = splitlines last_valid_line_translation
                     in (Inr last_valid_line_translation,
                         (with_files st1 fs)
                            \<lparr>previous_text :=
                               (if 3 \<le> length lines then join [NL] (slice_m3 lines)
                                else previous_text_default env)\<rparr>)))))"

text \<open>\<^verbatim>\<open>for retry in range(2)\<close> of lines 211 to 244, with the list
  \<^verbatim>\<open>new_failed_segments\<close>. The \<^verbatim>\<open>else\<close> runs when both attempts were caught.\<close>

fun lines_attempts ::
  "env \<Rightarrow> string \<Rightarrow> json \<Rightarrow> json \<Rightarrow> nat list \<Rightarrow> string option \<Rightarrow> json list \<Rightarrow> state
     \<Rightarrow> json list outcome" where
  "lines_attempts env text_failed count text_value [] last_valid new_failed_segments st =
     (if nonempty last_valid then Returns new_failed_segments st
      else Returns
             (new_failed_segments @ [JObj [(''count'', count), (''value'', text_value)]]) st)"
| "lines_attempts env text_failed count text_value (retry # rest) last_valid new_failed_segments st =
     (case lines_try env text_failed st of
        (Inr lv, st1) \<Rightarrow> Returns new_failed_segments st1
      | (Inl e, st1) \<Rightarrow>
          if caught e
          then lines_attempts env text_failed count text_value rest last_valid
                 new_failed_segments st1
          else Raises e st1)"

text \<open>The body of \<^verbatim>\<open>for entry in failed_segments\<close>, lines 207 to 246.\<close>

definition lines_entry :: "env \<Rightarrow> json \<Rightarrow> json list \<Rightarrow> state \<Rightarrow> json list outcome" where
  "lines_entry env entry new_failed_segments st =
     (case getitem entry ''count'' of
        Inl e \<Rightarrow> Raises e st
      | Inr count \<Rightarrow>
          (case getitem entry ''value'' of
             Inl e \<Rightarrow> Raises e st
           | Inr text_value \<Rightarrow>
               (case convert_failed_segments_to_json env entry of
                  Inl e \<Rightarrow> Raises e st
                | Inr text_failed \<Rightarrow>
                    lines_attempts env text_failed count text_value [0, 1] None
                      new_failed_segments st)))"

fun lines_entries :: "env \<Rightarrow> json list \<Rightarrow> json list \<Rightarrow> state \<Rightarrow> json list outcome" where
  "lines_entries env [] new_failed_segments st = Returns new_failed_segments st"
| "lines_entries env (entry # entries) new_failed_segments st =
     (case lines_entry env entry new_failed_segments st of
        Raises e st1 \<Rightarrow> Raises e st1
      | Returns nf st1 \<Rightarrow> lines_entries env entries nf st1)"

text \<open>\<^verbatim>\<open>_retranslate_failed_lines\<close>, lines 185 to 252. Line 195 catches
  \<^verbatim>\<open>JSONDecodeError\<close> and \<^verbatim>\<open>OSError\<close>. Line 202 writes the empty array, and line 249
  writes to a file opened with \<^verbatim>\<open>"w"\<close>, which holds what was written and nothing else.\<close>

definition retranslate_failed_lines :: "env \<Rightarrow> state \<Rightarrow> unit outcome" where
  "retranslate_failed_lines env st =
     (case failed_file st of
        None \<Rightarrow> Returns () st
      | Some txt \<Rightarrow>
          (case json_load env txt of
             Inl e \<Rightarrow> if e = JSONDecodeError \<or> e = OSError then Returns () st else Raises e st
           | Inr failed_segments \<Rightarrow>
               if \<not> truthy failed_segments then Returns () st
               else
                 (let st1 = st\<lparr>failed_file := Some ''[]''\<rparr> in
                  case py_iter failed_segments of
                    Inl e \<Rightarrow> Raises e st1
                  | Inr entries \<Rightarrow>
                      (case lines_entries env entries [] st1 of
                         Raises e st2 \<Rightarrow> Raises e st2
                       | Returns new_failed_segments st2 \<Rightarrow>
                           if new_failed_segments \<noteq> []
                           then (case json_dump env (JArr new_failed_segments) of
                                   (written, None) \<Rightarrow>
                                     Returns () (st2\<lparr>failed_file := Some written\<rparr>)
                                 | (written, Some e) \<Rightarrow>
                                     Raises e (st2\<lparr>failed_file := Some written\<rparr>))
                           else Returns () st2))))"

section \<open>The whole run\<close>

text \<open>\<^verbatim>\<open>translate_content\<close>, lines 38 to 110.\<close>

definition translate_content :: "env \<Rightarrow> state \<Rightarrow> unit outcome" where
  "translate_content env st =
     (case stream_segment_json env (src_file st) (previous_text st) of
        None \<Rightarrow> Returns () st
      | Some segments \<Rightarrow>
          (case primary_segments env segments Unbound (st\<lparr>combined_previous_texts := []\<rparr>) of
             Raises e st1 \<Rightarrow> Raises e st1
           | Returns _ st1 \<Rightarrow>
               (case batch_retry_rounds env [0, 1, 2] st1 of
                  Raises e st2 \<Rightarrow> Raises e st2
                | Returns _ st2 \<Rightarrow>
                    if failed_status st2
                    then retranslate_failed_lines env (st2\<lparr>log := log st2 @ [FinalAttempt]\<rparr>)
                    else Returns () st2)))"

section \<open>The line-by-line tier in the words of the specification\<close>

text \<open>
  The specification of the tier: each entry gets up to 2 attempts, and an entry that
  exhausts them is appended again, as \<^verbatim>\<open>{count, value}\<close> with its own unit id and source
  text, to the queue that is persisted at the end. \<open>both_attempts_fail\<close> says that the
  two attempts for a request, made one after the other from a state, both end in an
  exception the handler catches; \<open>permanent_failures\<close> lists the entries for which
  that holds, each tried in the state the entries before it have left.
\<close>

definition both_attempts_fail :: "env \<Rightarrow> string \<Rightarrow> state \<Rightarrow> bool" where
  "both_attempts_fail env request st =
     (case lines_try env request st of
        (Inr lv, st1) \<Rightarrow> False
      | (Inl e1, st1) \<Rightarrow>
          caught e1
          \<and> (case lines_try env request st1 of
                (Inr lv, st2) \<Rightarrow> False
              | (Inl e2, st2) \<Rightarrow> caught e2))"

fun permanent_failures :: "env \<Rightarrow> json list \<Rightarrow> state \<Rightarrow> json list" where
  "permanent_failures env [] st = []"
| "permanent_failures env (entry # entries) st =
     (case (getitem entry ''count'', getitem entry ''value'',
            convert_failed_segments_to_json env entry) of
        (Inr unit_id, Inr source_text, Inr request) \<Rightarrow>
          (if both_attempts_fail env request st
           then [JObj [(''count'', unit_id), (''value'', source_text)]]
           else [])
          @ permanent_failures env entries (state_of (lines_entry env entry [] st))
      | _ \<Rightarrow> [])"

section \<open>The entries of the queue and the contracts of the collaborators\<close>

text \<open>
  Modelled from the spec: the Result Recorder (\<^verbatim>\<open>process_translation_results\<close> in
  \<^verbatim>\<open>translator/translation_checker.py\<close>, which is not among the sources) persists the
  outcome of each unit and says whether there was a new success (section 6); the Failure
  Queue file is owned by the pipeline alone (section 5), which appends to it, empties it
  and replaces it (sections 2 and 4.2). So the recorder leaves the queue file as it
  finds it.
\<close>

definition recorder_keeps_queue :: "env \<Rightarrow> bool" where
  "recorder_keeps_queue env \<longleftrightarrow>
     (\<forall>segment t fs. snd (snd (process_translation_results env segment t fs)) = snd fs)"

text \<open>The entries of the Failure Queue: the elements of the array that \<^verbatim>\<open>json.load\<close>
  reads from the queue file. \<open>entries_remain\<close> says that there are some.\<close>

definition entries_remain :: "env \<Rightarrow> state \<Rightarrow> bool" where
  "entries_remain env st \<longleftrightarrow>
     (case failed_file st of
        None \<Rightarrow> False
      | Some bytes \<Rightarrow>
          (case json_load env bytes of
             Inl e \<Rightarrow> False
           | Inr data \<Rightarrow> (case data of JArr es \<Rightarrow> es \<noteq> [] | _ \<Rightarrow> False)))"

text \<open>
  Modelled from the spec: the Segmenter (\<^verbatim>\<open>stream_segment_json\<close> in
  \<^verbatim>\<open>textProcessing/text_separator.py\<close>, which is not among the sources) has no stream
  only if no units remain (section 6, and line 138 of the pipeline reads an absent
  stream in that way). So it has a stream for a queue file that holds entries.
\<close>

definition segmenter_streams_queue :: "env \<Rightarrow> bool" where
  "segmenter_streams_queue env \<longleftrightarrow>
     (\<forall>bytes previous es.
        json_load env bytes = Inr (JArr es) \<and> es \<noteq> []
        \<longrightarrow> stream_segment_json env (Some bytes) previous \<noteq> None)"

section \<open>Collaborators to run the pipeline with\<close>

text \<open>
  Modelled from the spec: the segmenter, the result recorder and \<^verbatim>\<open>clean_json\<close>
  (\<^verbatim>\<open>translator/translation_checker.py\<close>) and the invoker
  (\<^verbatim>\<open>llmWrapper/ollama_wrapper.py\<close>) are not among the sources. The instances below
  follow their contracts in the specification and serve to run the functions above on
  concrete inputs; the general theorems hold for every value of the parameters.

  The segmenter puts every unit in a segment of its own, written as the request
  \<^verbatim>\<open>{unit_id: text}\<close>; it reads a unit store (an object keyed by unit id) and a Failure
  Queue (an array of \<^verbatim>\<open>{count, value}\<close> entries), and has no stream for a store or a
  queue without units.
\<close>

definition unit_segment :: "string \<Rightarrow> json \<Rightarrow> string" where
  "unit_segment k v = json_dumps_indent4 (JObj [(k, v)])"

fun entry_segment :: "json \<Rightarrow> string list" where
  "entry_segment (JObj kvs) =
     (case (map_of kvs ''count'', map_of kvs ''value'') of
        (Some (JInt n), Some v) \<Rightarrow> [unit_segment (str_int n) v]
      | _ \<Rightarrow> [])"
| "entry_segment _ = []"

definition unit_segmenter :: "string option \<Rightarrow> string \<Rightarrow> string list option" where
  "unit_segmenter content previous =
     (case content of
        None \<Rightarrow> None
      | Some bytes \<Rightarrow>
          (case json_load_file bytes of
             Inr (JObj kvs) \<Rightarrow>
               if kvs = [] then None else Some (map (\<lambda>kv. unit_segment (fst kv) (snd kv)) kvs)
           | Inr (JArr es) \<Rightarrow> if es = [] then None else Some (concat (map entry_segment es))
           | _ \<Rightarrow> None))"

text \<open>
  Modelled from the spec: the result recorder. A translation that is no JSON object is
  malformed (\<^verbatim>\<open>JSONDecodeError\<close>); a unit of the segment is recorded when the
  translation has a text for it and the store has none yet (recording a unit again does
  nothing); the answer says whether a unit was recorded. It leaves the queue file alone.
\<close>

fun record_units :: "(string \<times> json) list \<Rightarrow> (string \<times> json) list \<Rightarrow> store \<Rightarrow> bool \<times> store" where
  "record_units [] translated rs = (False, rs)"
| "record_units ((k, v) # kvs) translated rs =
     (case (py_int k, map_of translated k) of
        (Some n, Some (JStr t)) \<Rightarrow>
          if t \<noteq> [] \<and> map_of rs n = None
          then (True, snd (record_units kvs translated (rs @ [(n, t)])))
          else record_units kvs translated rs
      | _ \<Rightarrow> record_units kvs translated rs)"

definition checking_recorder :: "string \<Rightarrow> string option \<Rightarrow> files \<Rightarrow> (exn + bool) \<times> files" where
  "checking_recorder segment translated fs =
     (case translated of
        None \<Rightarrow> (Inl ValueError, fs)
      | Some t \<Rightarrow>
          (case (json_loads_text segment, json_loads_text t) of
             (Some (JObj src), Some (JObj dst)) \<Rightarrow>
               (Inr (fst (record_units src dst (fst fs))),
                (snd (record_units src dst (fst fs)), snd fs))
           | _ \<Rightarrow> (Inl JSONDecodeError, fs)))"

text \<open>Modelled from the spec, which says nothing of \<^verbatim>\<open>clean_json\<close>: the text as it
  is, and \<^verbatim>\<open>TypeError\<close> for \<^verbatim>\<open>None\<close>.\<close>

definition plain_clean_json :: "string option \<Rightarrow> exn + string" where
  "plain_clean_json t = (case t of None \<Rightarrow> Inl TypeError | Some s \<Rightarrow> Inr s)"

definition pipeline_env :: "(nat \<Rightarrow> string \<Rightarrow> string \<Rightarrow> exn + string option) \<Rightarrow> env" where
  "pipeline_env invoker =
     \<lparr>translate_text = invoker,
      stream_segment_json = unit_segmenter,
      process_translation_results = checking_recorder,
      clean_json = plain_clean_json,
      json_load = json_load_file,
      json_loads = json_loads_str,
      json_dump = json_dump_file,
      json_dumps = json_dumps_indent4,
      previous_text_default = ''DEFAULT''\<rparr>"

text \<open>The state \<^verbatim>\<open>__init__\<close> and \<^verbatim>\<open>_clear_temp_folder\<close> leave, with the unit store that
  extraction wrote.\<close>

definition fresh_state :: "string \<Rightarrow> state" where
  "fresh_state src =
     \<lparr>previous_text = ''DEFAULT'', failed_status = True, src_file = Some src,
      failed_file = None, result_store = [], calls = 0, combined_previous_texts = [],
      log = []\<rparr>"

definition queue_entry :: "int \<Rightarrow> string \<Rightarrow> json" where
  "queue_entry n t = JObj [(''count'', JInt n), (''value'', JStr t)]"

definition queue_text :: "(int \<times> string) list \<Rightarrow> string" where
  "queue_text es = json_dumps_indent4 (JArr (map (\<lambda>e. queue_entry (fst e) (snd e)) es))"

text \<open>A state in which the primary pass has left the given entries in the queue.\<close>

definition queued_state :: "(int \<times> string) list \<Rightarrow> state" where
  "queued_state es = (fresh_state ''{}'')\<lparr>failed_file := Some (queue_text es)\<rparr>"

definition one_unit :: string where
  "one_unit = json_dumps_indent4 (JObj [(''1'', JStr ''a'')])"

definition two_units :: string where
  "two_units = json_dumps_indent4 (JObj [(''1'', JStr ''a''), (''2'', JStr ''b'')])"

text \<open>Invokers: a backend that is down; one that translates unit 1 on the first call
  and is down from then on; one that always returns the translation of unit 1; one that
  returns the empty text twice and the translation of unit 1 from then on.\<close>

definition invoker_down :: "nat \<Rightarrow> string \<Rightarrow> string \<Rightarrow> exn + string option" where
  "invoker_down n segment previous = Inl RuntimeError"

definition invoker_first_call :: "nat \<Rightarrow> string \<Rightarrow> string \<Rightarrow> exn + string option" where
  "invoker_first_call n segment previous =
     (if n = 0 then Inr (Some (unit_segment ''1'' (JStr ''A''))) else Inl RuntimeError)"

definition invoker_unit1 :: "nat \<Rightarrow> string \<Rightarrow> string \<Rightarrow> exn + string option" where
  "invoker_unit1 n segment previous = Inr (Some (unit_segment ''1'' (JStr ''A'')))"

definition invoker_late :: "nat \<Rightarrow> string \<Rightarrow> string \<Rightarrow> exn + string option" where
  "invoker_late n segment previous =
     (if n < 2 then Inr (Some []) else Inr (Some (unit_segment ''1'' (JStr ''A''))))"

text \<open>An invoker whose output is no JSON, and queue files that hold such text, bytes
  that are no UTF-8, and 60 letters left by an earlier writer.\<close>

definition invoker_garbled :: "nat \<Rightarrow> string \<Rightarrow> string \<Rightarrow> exn + string option" where
  "invoker_garbled n segment previous = Inr (Some ''garbled'')"

definition garbled_queue_state :: state where
  "garbled_queue_state = (fresh_state ''{}'')\<lparr>failed_file := Some ''garbled''\<rparr>"

definition undecodable_queue_state :: state where
  "undecodable_queue_state = (fresh_state ''{}'')\<lparr>failed_file := Some [CHR 0xFF]\<rparr>"

definition stale_queue_state :: state where
  "stale_queue_state = (fresh_state ''{}'')\<lparr>failed_file := Some (replicate 60 (CHR ''x''))\<rparr>"

text \<open>The state after a batch-retry round on a queue that holds unit 1, with the garbled
  invoker: two calls, no success, the queue file emptied.\<close>

definition after_fruitless_round :: state where
  "after_fruitless_round =
     (queued_state [(1, ''a'')])
       \<lparr>failed_file := Some ''[]'', calls := 2,
        combined_previous_texts := [Some ''garbled''], log := [Retrying]\<rparr>"

text \<open>An invoker that translates unit 2 and garbles everything else.\<close>

definition invoker_second_unit :: "nat \<Rightarrow> string \<Rightarrow> string \<Rightarrow> exn + string option" where
  "invoker_second_unit n segment previous =
     (if segment = unit_segment ''2'' (JStr ''b'') then Inr (Some (unit_segment ''2'' (JStr ''B'')))
      else Inr (Some ''garbled''))"

section \<open>The log of a run\<close>

text \<open>
  Only the entry of \<^verbatim>\<open>retranslate_failed_content\<close> and line 109 of
  \<^verbatim>\<open>translate_content\<close> write one of the two log lines. Each lemma follows the
  recursion of the function it is about.
\<close>

lemma mark_segment_as_failed_log:
  "log (state_of (mark_segment_as_failed env segment st)) = log st"
  by (simp add: mark_segment_as_failed_def Let_def split: sum.splits option.splits prod.splits)

lemma primary_try_log:
  "primary_try env segment tt st = (r, tt1, st1) \<Longrightarrow> log st1 = log st"
  by (auto simp add: primary_try_def with_files_def Let_def
      split: sum.splits option.splits prod.splits if_splits)

lemma primary_attempts_log:
  "log (state_of (primary_attempts env segment rs lv tt st)) = log st"
proof (induction rs arbitrary: lv tt st)
  case Nil
  show ?case by simp
next
  case (Cons r rs)
  obtain res tt1 st1 where t: "primary_try env segment tt st = (res, tt1, st1)"
    by (cases "primary_try env segment tt st") auto
  have l1: "log st1 = log st" using t by (rule primary_try_log)
  show ?case
  proof (cases res)
    case (Inr u)
    with t l1 show ?thesis by simp
  next
    case (Inl e)
    show ?thesis
    proof (cases "caught e")
      case False
      with t l1 Inl show ?thesis by simp
    next
      case True
      show ?thesis
      proof (cases tt1)
        case Unbound
        with t l1 Inl True show ?thesis by simp
      next
        case (Bound v)
        show ?thesis
        proof (cases "r = 1")
          case False
          with t l1 Inl True Bound Cons.IH [of v tt1 st1] show ?thesis by simp
        next
          case r1: True
          show ?thesis
          proof (cases "mark_segment_as_failed env segment st1")
            case (Raises e2 st2)
            with mark_segment_as_failed_log [of env segment st1] t l1 Inl True Bound r1
            show ?thesis by simp
          next
            case (Returns u st2)
            with mark_segment_as_failed_log [of env segment st1] t l1 Inl True Bound r1
              Cons.IH [of v tt1 st2]
            show ?thesis by simp
          qed
        qed
      qed
    qed
  qed
qed

lemma primary_segments_log:
  "log (state_of (primary_segments env segments tt st)) = log st"
proof (induction segments arbitrary: tt st)
  case Nil
  show ?case by simp
next
  case (Cons s segments)
  show ?case
  proof (cases "primary_attempts env s [0, 1] None tt st")
    case (Raises e st1)
    with primary_attempts_log [of env s "[0, 1]" None tt st] show ?thesis by simp
  next
    case (Returns tt1 st1)
    with primary_attempts_log [of env s "[0, 1]" None tt st] Cons.IH [of tt1 st1]
    show ?thesis by simp
  qed
qed

lemma retry_try_log:
  "retry_try env segment tt has st = (r, tt1, has1, st1) \<Longrightarrow> log st1 = log st"
  by (auto simp add: retry_try_def with_files_def Let_def
      split: sum.splits option.splits prod.splits if_splits)

lemma retry_attempts_log:
  "log (state_of (retry_attempts env segment rs lv tt has st)) = log st"
proof (induction rs arbitrary: lv tt has st)
  case Nil
  show ?case by simp
next
  case (Cons r rs)
  obtain res tt1 has1 st1 where t: "retry_try env segment tt has st = (res, tt1, has1, st1)"
    by (cases "retry_try env segment tt has st") auto
  have l1: "log st1 = log st"
    using t by (rule retry_try_log)
  show ?case
    using t l1 Cons.IH [of _ tt1 has1 st1]
    by (cases res; cases tt1) auto
qed

lemma retry_segments_log:
  "log (state_of (retry_segments env segments tt has st)) = log st"
proof (induction segments arbitrary: tt has st)
  case Nil
  show ?case by simp
next
  case (Cons s segments)
  show ?case
  proof (cases "retry_attempts env s [0, 1] None tt has st")
    case (Raises e st1)
    with retry_attempts_log [of env s "[0, 1]" None tt has st] show ?thesis by simp
  next
    case (Returns p st1)
    obtain tt1 has1 where p: "p = (tt1, has1)" by (cases p)
    with Returns retry_attempts_log [of env s "[0, 1]" None tt has st]
      Cons.IH [of tt1 has1 st1]
    show ?thesis by simp
  qed
qed

lemma retranslate_failed_content_log:
  "log (state_of (retranslate_failed_content env st)) = log st @ [Retrying]"
  by (simp add: retranslate_failed_content_def Let_def retry_segments_log
      split: option.splits sum.splits)

lemma batch_retry_rounds_log:
  "\<exists>n\<le>length rounds. log (state_of (batch_retry_rounds env rounds st)) = log st @ replicate n Retrying"
proof (induction rounds arbitrary: st)
  case Nil
  show ?case by simp
next
  case (Cons r rounds)
  show ?case
  proof (cases "failed_status st")
    case False
    then show ?thesis by simp
  next
    case True
    show ?thesis
    proof (cases "retranslate_failed_content env st")
      case (Raises e st1)
      with True retranslate_failed_content_log [of env st]
      have "log (state_of (batch_retry_rounds env (r # rounds) st)) = log st @ replicate 1 Retrying"
        by simp
      then show ?thesis by (intro exI [of _ 1]) simp
    next
      case (Returns b st1)
      with retranslate_failed_content_log [of env st]
      have l1: "log st1 = log st @ [Retrying]" by simp
      from Cons.IH [of "st1\<lparr>failed_status := b\<rparr>"]
      obtain n where n: "n \<le> length rounds"
        "log (state_of (batch_retry_rounds env rounds (st1\<lparr>failed_status := b\<rparr>)))
           = log (st1\<lparr>failed_status := b\<rparr>) @ replicate n Retrying"
        by blast
      with True Returns l1
      have "log (state_of (batch_retry_rounds env (r # rounds) st)) = log st @ replicate (Suc n) Retrying"
        by simp
      with n(1) show ?thesis by (intro exI [of _ "Suc n"]) simp
    qed
  qed
qed

lemma lines_try_log:
  "lines_try env text_failed st = (r, st1) \<Longrightarrow> log st1 = log st"
  by (auto simp add: lines_try_def with_files_def Let_def
      split: sum.splits option.splits prod.splits if_splits)

lemma lines_attempts_log:
  "log (state_of (lines_attempts env text_failed c v rs lv nf st)) = log st"
proof (induction rs arbitrary: st)
  case Nil
  show ?case by simp
next
  case (Cons r rs)
  obtain res st1 where t: "lines_try env text_failed st = (res, st1)"
    by (cases "lines_try env text_failed st") auto
  have l1: "log st1 = log st" using t by (rule lines_try_log)
  show ?case using t l1 Cons.IH [of st1] by (cases res) auto
qed

lemma lines_entry_log:
  "log (state_of (lines_entry env entry nf st)) = log st"
  by (simp add: lines_entry_def lines_attempts_log del: lines_attempts.simps split: sum.splits)

lemma lines_entries_log:
  "log (state_of (lines_entries env entries nf st)) = log st"
proof (induction entries arbitrary: nf st)
  case Nil
  show ?case by simp
next
  case (Cons e entries)
  show ?case
    using lines_entry_log [of env e nf st] Cons.IH
    by (cases "lines_entry env e nf st") auto
qed

lemma retranslate_failed_lines_log:
  "log (state_of (retranslate_failed_lines env st)) = log st"
proof -
  have "log (state_of (case lines_entries env es [] (st\<lparr>failed_file := Some ''[]''\<rparr>) of
                         Raises e st2 \<Rightarrow> Raises e st2
                       | Returns nf st2 \<Rightarrow>
                           if nf \<noteq> []
                           then (case json_dump env (JArr nf) of
                                   (written, None) \<Rightarrow>
                                     Returns () (st2\<lparr>failed_file := Some written\<rparr>)
                                 | (written, Some e) \<Rightarrow>
                                     Raises e (st2\<lparr>failed_file := Some written\<rparr>))
                           else Returns () st2)) = log st" for es
    using lines_entries_log [of env es "[]" "st\<lparr>failed_file := Some ''[]''\<rparr>"]
    by (cases "lines_entries env es [] (st\<lparr>failed_file := Some ''[]''\<rparr>)")
       (auto split: prod.splits option.splits)
  then show ?thesis
    by (simp add: retranslate_failed_lines_def Let_def split: option.splits sum.splits)
qed

lemma translate_content_log:
  "\<exists>n\<le>3. \<exists>m\<le>1. log (state_of (translate_content env st))
      = log st @ replicate n Retrying @ replicate m FinalAttempt"
proof (cases "stream_segment_json env (src_file st) (previous_text st)")
  case None
  then have "log (state_of (translate_content env st)) = log st @ replicate 0 Retrying @ replicate 0 FinalAttempt"
    by (simp add: translate_content_def)
  then show ?thesis by (intro exI [of _ 0] conjI) simp_all
next
  case (Some segments)
  let ?s0 = "st\<lparr>combined_previous_texts := []\<rparr>"
  have p: "log (state_of (primary_segments env segments Unbound ?s0)) = log st"
    using primary_segments_log [of env segments Unbound ?s0] by simp
  show ?thesis
  proof (cases "primary_segments env segments Unbound ?s0")
    case (Raises e st1)
    with Some p have "log (state_of (translate_content env st)) = log st @ replicate 0 Retrying @ replicate 0 FinalAttempt"
      by (simp add: translate_content_def)
    then show ?thesis by (intro exI [of _ 0] conjI) simp_all
  next
    case (Returns tt1 st1)
    with p have l1: "log st1 = log st" by simp
    from batch_retry_rounds_log [of "[0, 1, 2]" env st1]
    obtain n where n: "n \<le> 3"
      "log (state_of (batch_retry_rounds env [0, 1, 2] st1)) = log st1 @ replicate n Retrying"
      by auto
    show ?thesis
    proof (cases "batch_retry_rounds env [0, 1, 2] st1")
      case Raises2: (Raises e st2)
      with Some Returns n l1
      have "log (state_of (translate_content env st)) = log st @ replicate n Retrying @ replicate 0 FinalAttempt"
        by (simp add: translate_content_def)
      with n(1) show ?thesis by (intro exI [of _ n] conjI exI [of _ 0]) simp_all
    next
      case Returns2: (Returns u st2)
      with n l1 have l2: "log st2 = log st @ replicate n Retrying" by simp
      show ?thesis
      proof (cases "failed_status st2")
        case False
        with Some Returns Returns2 l2
        have "log (state_of (translate_content env st)) = log st @ replicate n Retrying @ replicate 0 FinalAttempt"
          by (simp add: translate_content_def)
        with n(1) show ?thesis by (intro exI [of _ n] conjI exI [of _ 0]) simp_all
      next
        case True
        with Some Returns Returns2 l2
          retranslate_failed_lines_log [of env "st2\<lparr>log := log st2 @ [FinalAttempt]\<rparr>"]
        have "log (state_of (translate_content env st)) = log st @ replicate n Retrying @ replicate 1 FinalAttempt"
          by (simp add: translate_content_def)
        with n(1) show ?thesis by (intro exI [of _ n] conjI exI [of _ 1]) simp_all
      qed
    qed
  qed
qed

lemma count_list_replicate:
  "count_list (replicate n x) y = (if x = y then n else 0)"
  by (induction n) auto

lemma batch_retry_rounds_still_failed:
  "batch_retry_rounds env rounds st = Returns u s2 \<Longrightarrow> failed_status st \<Longrightarrow> failed_status s2
     \<Longrightarrow> log s2 = log st @ replicate (length rounds) Retrying"
proof (induction rounds arbitrary: st)
  case Nil
  then show ?case by simp
next
  case (Cons r rounds)
  show ?case
  proof (cases "retranslate_failed_content env st")
    case (Raises e st1)
    with Cons.prems show ?thesis by simp
  next
    case (Returns b st1)
    with retranslate_failed_content_log [of env st]
    have l1: "log st1 = log st @ [Retrying]" by simp
    from Cons.prems Returns
    have rest: "batch_retry_rounds env rounds (st1\<lparr>failed_status := b\<rparr>) = Returns u s2"
      by simp
    show ?thesis
    proof (cases b)
      case False
      with rest have "s2 = st1\<lparr>failed_status := False\<rparr>"
        by (cases rounds) simp_all
      with Cons.prems(3) show ?thesis by simp
    next
      case True
      with rest Cons.IH [of "st1\<lparr>failed_status := b\<rparr>"] Cons.prems(3)
      have "log s2 = log st1 @ replicate (length rounds) Retrying" by simp
      with l1 show ?thesis by (simp add: replicate_app_Cons_same)
    qed
  qed
qed

text \<open>A call that evaluates to a return is that return, in the state it ends in.\<close>

lemma returns_state_of:
  "(case x of Raises e s \<Rightarrow> False | Returns v s \<Rightarrow> v = w \<and> P s)
     \<Longrightarrow> x = Returns w (state_of x) \<and> P (state_of x)"
  by (cases x) auto

section \<open>What the line-by-line tier appends\<close>

lemma lines_attempts_two:
  assumes "lines_attempts env request c v [0, 1] None nf st = Returns nf1 st1"
  shows "nf1 = nf @ (if both_attempts_fail env request st
                     then [JObj [(''count'', c), (''value'', v)]] else [])
         \<and> st1 = state_of (lines_attempts env request c v [0, 1] None [] st)"
proof -
  obtain r1 s1 where t1: "lines_try env request st = (r1, s1)"
    by (cases "lines_try env request st") auto
  obtain r2 s2 where t2: "lines_try env request s1 = (r2, s2)"
    by (cases "lines_try env request s1") auto
  show ?thesis
    using assms t1 t2
    by (cases r1; cases r2) (auto simp add: both_attempts_fail_def split: if_splits)
qed

lemma lines_entry_result:
  assumes "lines_entry env entry nf st = Returns nf1 st1"
  shows "\<exists>c v request.
           getitem entry ''count'' = Inr c \<and> getitem entry ''value'' = Inr v
           \<and> convert_failed_segments_to_json env entry = Inr request
           \<and> nf1 = nf @ (if both_attempts_fail env request st
                          then [JObj [(''count'', c), (''value'', v)]] else [])
           \<and> st1 = state_of (lines_entry env entry [] st)"
proof (cases "getitem entry ''count''")
  case (Inl e)
  with assms show ?thesis by (simp add: lines_entry_def)
next
  case c: (Inr c)
  show ?thesis
  proof (cases "getitem entry ''value''")
    case (Inl e)
    with assms c show ?thesis by (simp add: lines_entry_def)
  next
    case v: (Inr v)
    show ?thesis
    proof (cases "convert_failed_segments_to_json env entry")
      case (Inl e)
      with assms c v show ?thesis by (simp add: lines_entry_def)
    next
      case (Inr request)
      with assms c v
      have "lines_attempts env request c v [0, 1] None nf st = Returns nf1 st1"
        by (simp add: lines_entry_def)
      from lines_attempts_two [OF this] c v Inr show ?thesis
        by (simp add: lines_entry_def)
    qed
  qed
qed

lemma lines_entries_result:
  "lines_entries env entries nf st = Returns nf1 st1
     \<Longrightarrow> nf1 = nf @ permanent_failures env entries st"
proof (induction entries arbitrary: nf st)
  case Nil
  then show ?case by simp
next
  case (Cons entry entries)
  show ?case
  proof (cases "lines_entry env entry nf st")
    case (Raises e s)
    with Cons.prems show ?thesis by simp
  next
    case (Returns nf2 s2)
    from lines_entry_result [OF Returns]
    obtain c v request where e:
      "getitem entry ''count'' = Inr c" "getitem entry ''value'' = Inr v"
      "convert_failed_segments_to_json env entry = Inr request"
      "nf2 = nf @ (if both_attempts_fail env request st
                   then [JObj [(''count'', c), (''value'', v)]] else [])"
      "s2 = state_of (lines_entry env entry [] st)"
      by blast
    from Cons.prems Returns have "lines_entries env entries nf2 s2 = Returns nf1 st1"
      by simp
    from Cons.IH [OF this] e show ?thesis by simp
  qed
qed

lemma lines_try_failed_file:
  "recorder_keeps_queue env \<Longrightarrow> lines_try env request st = (r, st1)
     \<Longrightarrow> failed_file st1 = failed_file st"
  by (auto simp add: lines_try_def recorder_keeps_queue_def with_files_def files_of_def Let_def
      split: sum.splits option.splits prod.splits if_splits)
    (metis snd_conv)+

lemma lines_attempts_failed_file:
  "recorder_keeps_queue env
     \<Longrightarrow> failed_file (state_of (lines_attempts env request c v rs lv nf st)) = failed_file st"
proof (induction rs arbitrary: st)
  case Nil
  show ?case by simp
next
  case (Cons r rs)
  obtain res st1 where t: "lines_try env request st = (res, st1)"
    by (cases "lines_try env request st") auto
  from lines_try_failed_file [OF Cons.prems t] have "failed_file st1 = failed_file st" .
  with t Cons.IH [OF Cons.prems, of st1] show ?case by (cases res) auto
qed

lemma lines_entries_failed_file:
  "recorder_keeps_queue env
     \<Longrightarrow> failed_file (state_of (lines_entries env entries nf st)) = failed_file st"
proof (induction entries arbitrary: nf st)
  case Nil
  show ?case by simp
next
  case (Cons e entries)
  have "failed_file (state_of (lines_entry env e nf st)) = failed_file st"
    using Cons.prems
    by (simp add: lines_entry_def lines_attempts_failed_file del: lines_attempts.simps
        split: sum.splits)
  with Cons.IH [OF Cons.prems] show ?case
    by (cases "lines_entry env e nf st") auto
qed

lemma checking_recorder_keeps_queue:
  "recorder_keeps_queue (pipeline_env invoker)"
  by (simp add: recorder_keeps_queue_def pipeline_env_def checking_recorder_def
      split: option.splits json.splits)

section \<open>Reading back what the encoder wrote\<close>

text \<open>
  The decoder reads an escaped string back character by character, and with it the
  object of one key and one string that a request is.
\<close>

lemma hex_val_hex_char:
  "d < 16 \<Longrightarrow> hex_val (hex_char d) = Some d"
  by (cases "d < 10") (simp_all add: hex_val_def hex_char_def Let_def)

lemma hex_val_zero: "hex_val (CHR ''0'') = Some 0"
  by (simp add: hex_val_def)

lemma parse_chars_step_plain:
  "c \<noteq> DQ \<Longrightarrow> c \<noteq> BS \<Longrightarrow> \<not> (of_char c :: nat) < 32
     \<Longrightarrow> parse_chars acc (c # cs) = parse_chars (c # acc) cs"
  by simp

lemma parse_chars_step_simple:
  "e \<noteq> CHR ''u'' \<Longrightarrow> simple_escape e = Some ch
     \<Longrightarrow> parse_chars acc (BS # e # cs) = parse_chars (ch # acc) cs"
  by (simp add: BS_def DQ_def)

lemma parse_chars_step_hex:
  assumes "hex4 h1 h2 h3 h4 = Some cp" and "cp < 0x80"
  shows "parse_chars acc (BS # CHR ''u'' # h1 # h2 # h3 # h4 # cs)
           = parse_chars (char_of cp # acc) cs"
proof -
  have ns: "\<not> surrogates cp b u lo" for b u lo
    using assms(2) by (simp add: surrogates_def)
  have enc: "utf8_encode cp = [char_of cp]"
    using assms(2) by (simp add: utf8_encode_def)
  show ?thesis
    by (subst parse_chars.simps)
       (simp add: assms(1) ns enc BS_def DQ_def del: parse_chars.simps
          split: list.split option.split)
qed

lemma parse_chars_escape_char:
  "parse_chars acc (escape_char c @ cs) = parse_chars (c # acc) cs"
proof -
  consider (dq) "c = DQ" | (bs) "c = BS" | (nl) "c = CHR 0x0A" | (cr) "c = CHR 0x0D"
    | (tab) "c = CHR 0x09" | (bsp) "c = CHR 0x08" | (ff) "c = CHR 0x0C"
    | (ctl) "c \<noteq> DQ" "c \<noteq> BS" "c \<noteq> CHR 0x0A" "c \<noteq> CHR 0x0D" "c \<noteq> CHR 0x09"
        "c \<noteq> CHR 0x08" "c \<noteq> CHR 0x0C" "(of_char c :: nat) < 32"
    | (plain) "c \<noteq> DQ" "c \<noteq> BS" "c \<noteq> CHR 0x0A" "c \<noteq> CHR 0x0D" "c \<noteq> CHR 0x09"
        "c \<noteq> CHR 0x08" "c \<noteq> CHR 0x0C" "\<not> (of_char c :: nat) < 32"
    by blast
  then show ?thesis
  proof cases
    case dq
    then show ?thesis
      using parse_chars_step_simple [of DQ DQ acc cs]
      by (simp add: escape_char_def simple_escape_def DQ_def)
  next
    case bs
    then show ?thesis
      using parse_chars_step_simple [of BS BS acc cs]
      by (simp add: escape_char_def simple_escape_def DQ_def BS_def)
  next
    case nl
    then show ?thesis
      using parse_chars_step_simple [of "CHR ''n''" "CHR 0x0A" acc cs]
      by (simp add: escape_char_def simple_escape_def DQ_def BS_def)
  next
    case cr
    then show ?thesis
      using parse_chars_step_simple [of "CHR ''r''" "CHR 0x0D" acc cs]
      by (simp add: escape_char_def simple_escape_def DQ_def BS_def)
  next
    case tab
    then show ?thesis
      using parse_chars_step_simple [of "CHR ''t''" "CHR 0x09" acc cs]
      by (simp add: escape_char_def simple_escape_def DQ_def BS_def)
  next
    case bsp
    then show ?thesis
      using parse_chars_step_simple [of "CHR ''b''" "CHR 0x08" acc cs]
      by (simp add: escape_char_def simple_escape_def DQ_def BS_def)
  next
    case ff
    then show ?thesis
      using parse_chars_step_simple [of "CHR ''f''" "CHR 0x0C" acc cs]
      by (simp add: escape_char_def simple_escape_def DQ_def BS_def)
  next
    case ctl
    let ?n = "of_char c :: nat"
    have d: "?n div 16 < 16" "?n mod 16 < 16" using ctl(8) by simp_all
    have "16 * (?n div 16) + ?n mod 16 = ?n" by simp
    then have "hex4 (CHR ''0'') (CHR ''0'') (hex_char (?n div 16)) (hex_char (?n mod 16)) = Some ?n"
      by (simp add: hex4_def hex_val_zero hex_val_hex_char d)
    from parse_chars_step_hex [OF this, of acc cs] ctl show ?thesis
      by (simp add: escape_char_def)
  next
    case plain
    then show ?thesis
      using parse_chars_step_plain [of c acc cs]
      by (simp add: escape_char_def)
  qed
qed

lemma parse_chars_escaped:
  "parse_chars acc (concat (map escape_char s) @ DQ # rest) = Some (rev acc @ s, rest)"
proof (induction s arbitrary: acc)
  case Nil
  show ?case by simp
next
  case (Cons c s)
  have "parse_chars acc (concat (map escape_char (c # s)) @ DQ # rest)
          = parse_chars acc (escape_char c @ (concat (map escape_char s) @ DQ # rest))"
    by simp
  also have "\<dots> = parse_chars (c # acc) (concat (map escape_char s) @ DQ # rest)"
    by (rule parse_chars_escape_char)
  also have "\<dots> = Some (rev (c # acc) @ s, rest)"
    by (rule Cons.IH)
  finally show ?case by simp
qed

lemma skip_ws_spaces:
  "skip_ws (replicate n (CHR '' '') @ r) = skip_ws r"
  by (induction n) (simp_all add: skip_ws_def is_json_ws_def)

lemma skip_ws_space: "skip_ws (CHR '' '' # r) = skip_ws r"
  by (simp add: skip_ws_def is_json_ws_def)

lemma skip_ws_newline: "skip_ws (NL # r) = skip_ws r"
  by (simp add: skip_ws_def is_json_ws_def NL_def)

lemma skip_ws_token:
  "\<not> is_json_ws c \<Longrightarrow> skip_ws (c # r) = c # r"
  by (simp add: skip_ws_def)

lemma not_ws:
  "\<not> is_json_ws DQ" "\<not> is_json_ws (CHR ''{'')" "\<not> is_json_ws (CHR ''}'')"
  "\<not> is_json_ws (CHR '':'')"
  by (simp_all add: is_json_ws_def DQ_def)

lemma parse_value_string:
  "parse_value (Suc m) (CHR '' '' # DQ # concat (map escape_char s) @ DQ # rest)
     = Some (JStr s, rest)"
  using parse_chars_escaped [of "[]" s rest]
  by (simp add: skip_ws_space skip_ws_token not_ws)

lemma parse_members_single:
  "parse_members (Suc (Suc m)) []
     (NL # indent 1 @ DQ # concat (map escape_char k)
        @ DQ # CHR '':'' # CHR '' '' # DQ # concat (map escape_char s) @ DQ # [NL, CHR ''}''])
     = Some (JObj [(k, JStr s)], [])"
proof -
  let ?after_key = "CHR '':'' # CHR '' '' # DQ # concat (map escape_char s) @ DQ # [NL, CHR ''}'']"
  have ws: "skip_ws (NL # indent 1 @ DQ # concat (map escape_char k) @ DQ # ?after_key)
              = DQ # concat (map escape_char k) @ DQ # ?after_key"
    by (simp add: skip_ws_newline indent_def skip_ws_spaces skip_ws_token not_ws)
  have key: "parse_chars [] (concat (map escape_char k) @ DQ # ?after_key) = Some (k, ?after_key)"
    using parse_chars_escaped [of "[]" k ?after_key] by simp
  have colon: "skip_ws ?after_key = ?after_key"
    by (simp add: skip_ws_token not_ws)
  have val: "parse_value (Suc m) (CHR '' '' # DQ # concat (map escape_char s) @ DQ # [NL, CHR ''}''])
               = Some (JStr s, [NL, CHR ''}''])"
    by (rule parse_value_string)
  have close: "skip_ws [NL, CHR ''}''] = [CHR ''}'']"
    by (simp add: skip_ws_newline skip_ws_token not_ws)
  show ?thesis
    by (simp only: parse_members.simps ws key colon val close list.case option.case prod.case
        obj_put.simps simp_thms if_True if_False)
      (simp add: DQ_def)
qed

lemma json_loads_single_pair:
  "json_loads_text (json_dumps_indent4 (JObj [(k, JStr s)])) = Some (JObj [(k, JStr s)])"
proof -
  let ?body = "NL # indent 1 @ DQ # concat (map escape_char k)
        @ DQ # CHR '':'' # CHR '' '' # DQ # concat (map escape_char s) @ DQ # [NL, CHR ''}'']"
  have dumped: "json_dumps_indent4 (JObj [(k, JStr s)]) = CHR ''{'' # ?body"
    by (simp add: json_dumps_indent4_def quote_def indent_def)
  have first: "skip_ws ?body = DQ # concat (map escape_char k)
        @ DQ # CHR '':'' # CHR '' '' # DQ # concat (map escape_char s) @ DQ # [NL, CHR ''}'']"
    by (simp add: skip_ws_newline indent_def skip_ws_spaces skip_ws_token not_ws)
  obtain m where len: "length ?body = Suc (Suc m)"
    by (simp add: indent_def)
  have brace: "skip_ws (CHR ''{'' # ?body) = CHR ''{'' # ?body"
    by (simp add: skip_ws_token not_ws)
  have ne: "CHR ''{'' \<noteq> DQ" "CHR ''{'' \<noteq> CHR ''[''" "DQ \<noteq> CHR ''}''"
    by (simp_all add: DQ_def)
  have members: "parse_members (Suc (Suc (Suc m))) [] ?body = Some (JObj [(k, JStr s)], [])"
    by (rule parse_members_single)
  have "parse_value (Suc (Suc (Suc (Suc m)))) (CHR ''{'' # ?body) = Some (JObj [(k, JStr s)], [])"
    by (simp only: parse_value.simps brace first members list.case ne if_False if_True simp_thms)
  with dumped len show ?thesis
    by (simp add: json_loads_text_def skip_ws_def)
qed

section \<open>The handlers, the Context Window and the queue in general\<close>

text \<open>
  A handler reads \<^verbatim>\<open>translated_text\<close> (lines 86 and 173). When the first call of the
  invoker that a function makes raises an exception the handler catches, the variable
  has no value, and \<^verbatim>\<open>UnboundLocalError\<close> leaves the function.
\<close>

lemma first_call_failure_leaves_translate_content:
  assumes "stream_segment_json env (src_file st) (previous_text st) = Some (segment # segments)"
    and "translate_text env (calls st) segment (previous_text st) = Inl e"
    and "caught e"
  shows "translate_content env st
           = Raises UnboundLocalError (st\<lparr>combined_previous_texts := [], calls := Suc (calls st)\<rparr>)"
  using assms by (simp add: translate_content_def primary_try_def Let_def)

lemma first_call_failure_leaves_retranslate_failed_content:
  assumes "failed_file st = Some txt" and "json_load env txt = Inr data" and "truthy data"
    and "stream_segment_json env (failed_file st) (previous_text st) = Some (segment # segments)"
    and "translate_text env (calls st) segment (previous_text st) = Inl e"
    and "caught e"
  shows "retranslate_failed_content env st
           = Raises UnboundLocalError
               (st\<lparr>log := log st @ [Retrying], failed_file := Some ''[]'',
                   calls := Suc (calls st)\<rparr>)"
  using assms by (simp add: retranslate_failed_content_def retry_try_def Let_def)

text \<open>The Context Window after an attempt that reached its \<^verbatim>\<open>break\<close>: the primary pass
  falls back to the default below 4 lines (lines 74 to 79), the batch retry does not
  (lines 166 and 167).\<close>

lemma primary_try_context_window:
  assumes "primary_try env segment tt st = (Inr u, tt1, st1)"
  shows "\<exists>t cleaned. translate_text env (calls st) segment (previous_text st) = Inr t
           \<and> clean_json env t = Inr cleaned
           \<and> previous_text st1
               = (if 4 \<le> length (splitlines cleaned)
                  then join [NL] (slice_m4_m1 (splitlines cleaned))
                  else previous_text_default env)"
  using assms
  by (auto simp add: primary_try_def with_files_def Let_def
      split: sum.splits prod.splits if_splits)

lemma retry_try_context_window:
  assumes "retry_try env segment tt has st = (Inr u, tt1, has1, st1)"
  shows "\<exists>t cleaned. translate_text env (calls st) segment (previous_text st) = Inr t
           \<and> clean_json env t = Inr cleaned
           \<and> previous_text st1 = join [NL] (slice_m4_m1 (splitlines cleaned))"
  using assms
  by (auto simp add: retry_try_def with_files_def Let_def
      split: sum.splits prod.splits if_splits)

text \<open>The batch retry writes the queue file at line 143 only: with a recorder that leaves
  the file alone, a round ends with the file as it was or holding the empty array.\<close>

lemma retry_try_failed_file:
  "recorder_keeps_queue env \<Longrightarrow> retry_try env segment tt has st = (r, tt1, has1, st1)
     \<Longrightarrow> failed_file st1 = failed_file st"
  by (auto simp add: retry_try_def recorder_keeps_queue_def with_files_def files_of_def Let_def
      split: sum.splits option.splits prod.splits if_splits)
    (metis snd_conv)+

lemma retry_attempts_failed_file:
  "recorder_keeps_queue env
     \<Longrightarrow> failed_file (state_of (retry_attempts env segment rs lv tt has st)) = failed_file st"
proof (induction rs arbitrary: lv tt has st)
  case Nil
  show ?case by simp
next
  case (Cons r rs)
  obtain res tt1 has1 st1 where t: "retry_try env segment tt has st = (res, tt1, has1, st1)"
    by (cases "retry_try env segment tt has st") auto
  from retry_try_failed_file [OF Cons.prems t] have "failed_file st1 = failed_file st" .
  with t Cons.IH [OF Cons.prems, of _ tt1 has1 st1] show ?case
    by (cases res; cases tt1) auto
qed

lemma retry_segments_failed_file:
  "recorder_keeps_queue env
     \<Longrightarrow> failed_file (state_of (retry_segments env segments tt has st)) = failed_file st"
proof (induction segments arbitrary: tt has st)
  case Nil
  show ?case by simp
next
  case (Cons s segments)
  show ?case
  proof (cases "retry_attempts env s [0, 1] None tt has st")
    case (Raises e st1)
    with retry_attempts_failed_file [OF Cons.prems, of s "[0, 1]" None tt has st]
    show ?thesis by simp
  next
    case (Returns p st1)
    obtain tt1 has1 where p: "p = (tt1, has1)" by (cases p)
    with Returns retry_attempts_failed_file [OF Cons.prems, of s "[0, 1]" None tt has st]
      Cons.IH [OF Cons.prems, of tt1 has1 st1]
    show ?thesis by simp
  qed
qed

lemma retranslate_failed_content_never_queues:
  assumes "recorder_keeps_queue env"
  shows "failed_file (state_of (retranslate_failed_content env st)) = failed_file st
         \<or> failed_file (state_of (retranslate_failed_content env st)) = Some ''[]''"
  using retry_segments_failed_file [OF assms]
  by (simp add: retranslate_failed_content_def Let_def split: option.splits sum.splits)

section \<open>The failure flag and the queue after the batch retry\<close>

text \<open>
  Only line 105 assigns \<^verbatim>\<open>self.failed_status\<close>, so the primary pass leaves the flag as
  \<^verbatim>\<open>__init__\<close> set it. A round of the batch retry that gets as far as line 143 empties
  the queue file, and nothing in the round writes it again: the handler of lines 171 to
  173 never queues a segment, and the recorder leaves the file alone. So after a round
  that returns, the queue file holds no entry.
\<close>

lemma mark_segment_as_failed_failed_status:
  "failed_status (state_of (mark_segment_as_failed env segment st)) = failed_status st"
  by (simp add: mark_segment_as_failed_def Let_def split: sum.splits option.splits prod.splits)

lemma primary_try_failed_status:
  "primary_try env segment tt st = (r, tt1, st1) \<Longrightarrow> failed_status st1 = failed_status st"
  by (auto simp add: primary_try_def with_files_def Let_def
      split: sum.splits option.splits prod.splits if_splits)

lemma primary_attempts_failed_status:
  "failed_status (state_of (primary_attempts env segment rs lv tt st)) = failed_status st"
proof (induction rs arbitrary: lv tt st)
  case Nil
  show ?case by simp
next
  case (Cons r rs)
  obtain res tt1 st1 where t: "primary_try env segment tt st = (res, tt1, st1)"
    by (cases "primary_try env segment tt st") auto
  have f1: "failed_status st1 = failed_status st"
    using t by (rule primary_try_failed_status)
  have m: "failed_status (state_of (mark_segment_as_failed env segment st1)) = failed_status st"
    using f1 by (simp add: mark_segment_as_failed_failed_status)
  show ?case
    using t f1 m Cons.IH
    by (cases res; cases tt1; cases "mark_segment_as_failed env segment st1") auto
qed

lemma primary_segments_failed_status:
  "failed_status (state_of (primary_segments env segments tt st)) = failed_status st"
proof (induction segments arbitrary: tt st)
  case Nil
  show ?case by simp
next
  case (Cons s segments)
  show ?case
    using primary_attempts_failed_status [of env s "[0, 1]" None tt st] Cons.IH
    by (cases "primary_attempts env s [0, 1] None tt st") auto
qed

lemma entries_remain_failed_file:
  "failed_file s = failed_file t \<Longrightarrow> entries_remain env s = entries_remain env t"
  by (simp add: entries_remain_def)

lemma no_entries_in_empty_array:
  "json_load env ''[]'' = Inr (JArr []) \<Longrightarrow> failed_file s = Some ''[]''
     \<Longrightarrow> \<not> entries_remain env s"
  by (simp add: entries_remain_def)

lemma retranslate_failed_content_leaves_no_entries:
  assumes rk: "recorder_keeps_queue env"
    and sq: "segmenter_streams_queue env"
    and empty: "json_load env ''[]'' = Inr (JArr [])"
    and ret: "retranslate_failed_content env st = Returns b s1"
  shows "\<not> entries_remain env s1 \<and> (b \<longrightarrow> failed_file s1 = Some ''[]'')"
proof (cases "failed_file st")
  case None
  with ret show ?thesis
    by (auto simp add: retranslate_failed_content_def Let_def entries_remain_def)
next
  case (Some bytes)
  show ?thesis
  proof (cases "json_load env bytes")
    case (Inl e)
    with Some ret show ?thesis
      by (auto simp add: retranslate_failed_content_def Let_def entries_remain_def
          split: if_splits)
  next
    case (Inr data)
    show ?thesis
    proof (cases "truthy data")
      case False
      with Some Inr ret show ?thesis
        by (cases data)
           (auto simp add: retranslate_failed_content_def Let_def entries_remain_def)
    next
      case True
      let ?st = "st\<lparr>log := log st @ [Retrying]\<rparr>"
      show ?thesis
      proof (cases "stream_segment_json env (Some bytes) (previous_text st)")
        case None
        have "\<not> (\<exists>es. data = JArr es \<and> es \<noteq> [])"
        proof
          assume "\<exists>es. data = JArr es \<and> es \<noteq> []"
          then obtain es where "json_load env bytes = Inr (JArr es)" and "es \<noteq> []"
            using Inr by blast
          with sq have "stream_segment_json env (Some bytes) (previous_text st) \<noteq> None"
            unfolding segmenter_streams_queue_def by blast
          with None show False by simp
        qed
        then have "\<not> entries_remain env ?st"
          using Some Inr by (cases data) (auto simp add: entries_remain_def)
        with Some Inr True None ret show ?thesis
          by (auto simp add: retranslate_failed_content_def Let_def)
      next
        case segs: (Some segments)
        from Some Inr True segs ret
        have run: "retry_segments env segments Unbound False (?st\<lparr>failed_file := Some ''[]''\<rparr>)
                     = Returns b s1"
          by (simp add: retranslate_failed_content_def Let_def)
        from retry_segments_failed_file [OF rk, of segments Unbound False
            "?st\<lparr>failed_file := Some ''[]''\<rparr>"] run
        have "failed_file s1 = Some ''[]''" by simp
        with no_entries_in_empty_array [OF empty this] show ?thesis by simp
      qed
    qed
  qed
qed

lemma batch_retry_rounds_done:
  "\<not> failed_status st \<Longrightarrow> batch_retry_rounds env rounds st = Returns () st"
  by (cases rounds) simp_all

lemma round_on_empty_array:
  assumes "json_load env ''[]'' = Inr (JArr [])" and "failed_file st = Some ''[]''"
  shows "retranslate_failed_content env st = Returns False (st\<lparr>log := log st @ [Retrying]\<rparr>)"
  using assms by (simp add: retranslate_failed_content_def Let_def)

lemma batch_retry_rounds_leaves_no_entries:
  assumes rk: "recorder_keeps_queue env"
    and sq: "segmenter_streams_queue env"
    and empty: "json_load env ''[]'' = Inr (JArr [])"
    and flag: "failed_status st"
    and ret: "batch_retry_rounds env (r1 # r2 # rounds) st = Returns u s2"
  shows "\<not> failed_status s2 \<and> \<not> entries_remain env s2"
proof (cases "retranslate_failed_content env st")
  case (Raises e s1)
  with flag ret show ?thesis by simp
next
  case (Returns b s1)
  note first = retranslate_failed_content_leaves_no_entries [OF rk sq empty Returns]
  from flag ret Returns
  have rest: "batch_retry_rounds env (r2 # rounds) (s1\<lparr>failed_status := b\<rparr>) = Returns u s2"
    by simp
  show ?thesis
  proof (cases b)
    case False
    with rest batch_retry_rounds_done [of "s1\<lparr>failed_status := b\<rparr>" env "r2 # rounds"]
    have "s2 = s1\<lparr>failed_status := False\<rparr>" by simp
    with first show ?thesis
      using entries_remain_failed_file [of s2 s1 env] by simp
  next
    case True
    with first have q: "failed_file (s1\<lparr>failed_status := b\<rparr>) = Some ''[]''" by simp
    let ?s = "s1\<lparr>failed_status := b\<rparr>"
    from round_on_empty_array [OF empty q] True rest
    have "batch_retry_rounds env rounds (?s\<lparr>log := log ?s @ [Retrying], failed_status := False\<rparr>)
            = Returns u s2"
      by simp
    with batch_retry_rounds_done [of "?s\<lparr>log := log ?s @ [Retrying], failed_status := False\<rparr>" env rounds]
    have s2: "s2 = ?s\<lparr>log := log ?s @ [Retrying], failed_status := False\<rparr>" by simp
    then have "failed_file s2 = Some ''[]''" using q by simp
    from no_entries_in_empty_array [OF empty this] s2 show ?thesis by simp
  qed
qed

lemma unit_segmenter_streams_queue:
  "segmenter_streams_queue (pipeline_env invoker)"
  by (simp add: segmenter_streams_queue_def pipeline_env_def unit_segmenter_def)

section \<open>The claims\<close>

text \<open>
  C7. Claim: no exception leaves \<^verbatim>\<open>translate_content\<close>, whatever call of the invoker
  fails, the first attempt of the first segment included. The code: when the very first
  call of the invoker raises \<^verbatim>\<open>RuntimeError\<close>, the handler at line 86 reads
  \<^verbatim>\<open>translated_text\<close>, which has no value yet, and the \<^verbatim>\<open>UnboundLocalError\<close> leaves
  \<^verbatim>\<open>translate_content\<close> after one call.
\<close>

theorem translate_content_raises_when_first_call_fails:
  "translate_content (pipeline_env invoker_down) (fresh_state one_unit)
     = Raises UnboundLocalError ((fresh_state one_unit)\<lparr>calls := 1\<rparr>)"
  by code_simp

text \<open>
  C2. Claim: after a full run every unit is either recorded as a success or listed as
  missing. The code: with a backend that translates unit 1 and then stays down, unit 2
  is queued by the primary pass; the batch retry empties the queue file, its first call
  of the invoker raises, line 173 reads a \<^verbatim>\<open>translated_text\<close> that has no value in
  this function, and the run ends with \<^verbatim>\<open>UnboundLocalError\<close>: unit 2 is not recorded,
  not in the queue, and no report is made.
\<close>

theorem translate_content_loses_unit_2:
  "(case translate_content (pipeline_env invoker_first_call) (fresh_state two_units) of
      Raises e s \<Rightarrow>
        e = UnboundLocalError \<and> result_store s = [(1, ''A'')] \<and> failed_file s = Some ''[]''
    | Returns u s \<Rightarrow> False)"
  by code_simp

text \<open>
  C1. Claim: a segment that fails both attempts of a batch-retry round has its units
  queued again. The code: with units 1 and 2 in the queue, unit 1 translated by the first
  call and the two calls for unit 2 failing, the round returns \<^verbatim>\<open>True\<close>, the queue file
  holds the empty array and unit 2 is in no store.
\<close>

theorem retranslate_failed_content_drops_unit_2:
  "(case retranslate_failed_content (pipeline_env invoker_first_call)
           (queued_state [(1, ''a''), (2, ''b'')]) of
      Raises e s \<Rightarrow> False
    | Returns b s \<Rightarrow>
        b \<and> calls s = 3 \<and> failed_file s = Some ''[]'' \<and> result_store s = [(1, ''A'')])"
  by code_simp

text \<open>
  C3. Claim: in the batch retry too, an output of fewer than 4 lines resets the Context
  Window to the default. The code: line 166 slices without looking at the number of
  lines; an output of 3 lines leaves its first 2 lines as the Context Window.
\<close>

theorem retranslate_failed_content_keeps_short_output:
  "(case retranslate_failed_content (pipeline_env invoker_unit1) (queued_state [(1, ''a'')]) of
      Raises e s \<Rightarrow> False
    | Returns b s \<Rightarrow>
        length (splitlines (unit_segment ''1'' (JStr ''A''))) = 3
        \<and> previous_text s = join [NL] (take 2 (splitlines (unit_segment ''1'' (JStr ''A''))))
        \<and> previous_text s \<noteq> previous_text_default (pipeline_env invoker_unit1))"
  by code_simp

text \<open>
  C6, as amended. When the queue file is absent, or \<^verbatim>\<open>json.load\<close> reads from it a value
  that counts as false (the empty array, the empty object), or \<^verbatim>\<open>json.load\<close> rejects it
  with \<^verbatim>\<open>JSONDecodeError\<close>, \<^verbatim>\<open>retranslate_failed_content\<close> returns \<^verbatim>\<open>False\<close> and
  \<^verbatim>\<open>_retranslate_failed_lines\<close> returns, neither raising; the state they return is the
  one they were called in but for the log line of the former, so the result store and
  the queue file are untouched. An exception of another class that reading the file
  raises leaves \<^verbatim>\<open>retranslate_failed_content\<close> (line 125 catches \<^verbatim>\<open>JSONDecodeError\<close>
  only), and leaves \<^verbatim>\<open>_retranslate_failed_lines\<close> unless it is an \<^verbatim>\<open>OSError\<close> (line
  195), the state again being the one of the call.
\<close>

theorem no_work_on_empty_queue:
  "(failed_file st = None
      \<or> (\<exists>bytes. failed_file st = Some bytes
            \<and> (json_load env bytes = Inl JSONDecodeError
                 \<or> (\<exists>data. json_load env bytes = Inr data \<and> \<not> truthy data)))
    \<longrightarrow> retranslate_failed_content env st = Returns False (st\<lparr>log := log st @ [Retrying]\<rparr>)
        \<and> retranslate_failed_lines env st = Returns () st)
   \<and> (\<forall>bytes e. failed_file st = Some bytes \<and> json_load env bytes = Inl e
                 \<and> e \<noteq> JSONDecodeError
        \<longrightarrow> retranslate_failed_content env st = Raises e (st\<lparr>log := log st @ [Retrying]\<rparr>)
            \<and> retranslate_failed_lines env st
                = (if e = OSError then Returns () st else Raises e st))"
  by (auto simp add: retranslate_failed_content_def retranslate_failed_lines_def Let_def)

text \<open>
  The claim as stated, for every content that does not parse as JSON, fails on a queue
  file that holds the byte \<^verbatim>\<open>0xFF\<close>: the bytes are no UTF-8, \<^verbatim>\<open>json.load\<close> raises
  \<^verbatim>\<open>UnicodeDecodeError\<close> while it reads the file, and the exception leaves both functions.
\<close>

theorem undecodable_queue_raises:
  "json_load (pipeline_env invoker_down) [CHR 0xFF] = Inl UnicodeDecodeError
   \<and> retranslate_failed_content (pipeline_env invoker_down) undecodable_queue_state
       = Raises UnicodeDecodeError (undecodable_queue_state\<lparr>log := [Retrying]\<rparr>)
   \<and> retranslate_failed_lines (pipeline_env invoker_down) undecodable_queue_state
       = Raises UnicodeDecodeError undecodable_queue_state"
  by code_simp

theorem no_work_on_empty_queue_witness:
  "(retranslate_failed_content (pipeline_env invoker_down) (fresh_state one_unit)
      = Returns False ((fresh_state one_unit)\<lparr>log := log (fresh_state one_unit) @ [Retrying]\<rparr>)
    \<and> retranslate_failed_lines (pipeline_env invoker_down) (fresh_state one_unit)
      = Returns () (fresh_state one_unit))
   \<and> (retranslate_failed_content (pipeline_env invoker_down) (queued_state [])
      = Returns False ((queued_state [])\<lparr>log := log (queued_state []) @ [Retrying]\<rparr>)
    \<and> retranslate_failed_lines (pipeline_env invoker_down) (queued_state [])
      = Returns () (queued_state []))
   \<and> (retranslate_failed_content (pipeline_env invoker_down) garbled_queue_state
      = Returns False (garbled_queue_state\<lparr>log := log garbled_queue_state @ [Retrying]\<rparr>)
    \<and> retranslate_failed_lines (pipeline_env invoker_down) garbled_queue_state
      = Returns () garbled_queue_state)
   \<and> (retranslate_failed_content (pipeline_env invoker_down) undecodable_queue_state
      = Raises UnicodeDecodeError
          (undecodable_queue_state\<lparr>log := log undecodable_queue_state @ [Retrying]\<rparr>)
    \<and> retranslate_failed_lines (pipeline_env invoker_down) undecodable_queue_state
      = Raises UnicodeDecodeError undecodable_queue_state)"
proof -
  let ?env = "pipeline_env invoker_down"
  have absent: "failed_file (fresh_state one_unit) = None"
    by (simp add: fresh_state_def)
  have empty: "failed_file (queued_state []) = Some ''[]''"
    by code_simp
  have empty_load: "json_load ?env ''[]'' = Inr (JArr [])"
    by code_simp
  have garbled: "failed_file garbled_queue_state = Some ''garbled''"
    by code_simp
  have garbled_load: "json_load ?env ''garbled'' = Inl JSONDecodeError"
    by code_simp
  have bad: "failed_file undecodable_queue_state = Some [CHR 0xFF]"
    by code_simp
  have bad_load: "json_load ?env [CHR 0xFF] = Inl UnicodeDecodeError"
    by code_simp
  note t1 = conjunct1 [OF no_work_on_empty_queue [of "fresh_state one_unit" ?env]]
  note t2 = conjunct1 [OF no_work_on_empty_queue [of "queued_state []" ?env]]
  note t3 = conjunct1 [OF no_work_on_empty_queue [of garbled_queue_state ?env]]
  note t4 = conjunct2 [OF no_work_on_empty_queue [of undecodable_queue_state ?env]]
  from t1 absent
  have A: "retranslate_failed_content ?env (fresh_state one_unit)
      = Returns False ((fresh_state one_unit)\<lparr>log := log (fresh_state one_unit) @ [Retrying]\<rparr>)
    \<and> retranslate_failed_lines ?env (fresh_state one_unit) = Returns () (fresh_state one_unit)"
    by blast
  have "\<not> truthy (JArr [])" by simp
  with t2 empty empty_load
  have B: "retranslate_failed_content ?env (queued_state [])
      = Returns False ((queued_state [])\<lparr>log := log (queued_state []) @ [Retrying]\<rparr>)
    \<and> retranslate_failed_lines ?env (queued_state []) = Returns () (queued_state [])"
    by blast
  from t3 garbled garbled_load
  have C: "retranslate_failed_content ?env garbled_queue_state
      = Returns False (garbled_queue_state\<lparr>log := log garbled_queue_state @ [Retrying]\<rparr>)
    \<and> retranslate_failed_lines ?env garbled_queue_state = Returns () garbled_queue_state"
    by blast
  from t4 bad bad_load
  have "retranslate_failed_content ?env undecodable_queue_state
      = Raises UnicodeDecodeError
          (undecodable_queue_state\<lparr>log := log undecodable_queue_state @ [Retrying]\<rparr>)
    \<and> retranslate_failed_lines ?env undecodable_queue_state
      = (if UnicodeDecodeError = OSError then Returns () undecodable_queue_state
         else Raises UnicodeDecodeError undecodable_queue_state)"
    by blast
  then have D: "retranslate_failed_content ?env undecodable_queue_state
      = Raises UnicodeDecodeError
          (undecodable_queue_state\<lparr>log := log undecodable_queue_state @ [Retrying]\<rparr>)
    \<and> retranslate_failed_lines ?env undecodable_queue_state
      = Raises UnicodeDecodeError undecodable_queue_state"
    by simp
  from A B C D show ?thesis by (intro conjI) (erule conjunct1 conjunct2)+
qed

text \<open>
  C4. A run makes at most 3 calls of \<^verbatim>\<open>retranslate_failed_content\<close> (each writes one
  \<^verbatim>\<open>Retrying\<close> line, and nothing else does); a round that returns \<^verbatim>\<open>False\<close> is the
  last one, whatever rounds were left; and a round that starts on a queue file that is
  absent, empty or unparsable returns \<^verbatim>\<open>False\<close> at once, so the loop stops there.
\<close>

theorem batch_retry_tier_is_capped:
  "count_list (log (state_of (translate_content env st))) Retrying
     \<le> count_list (log st) Retrying + 3
   \<and> (failed_status st \<and> retranslate_failed_content env st = Returns False s1
        \<longrightarrow> batch_retry_rounds env (r # rounds) st = Returns () (s1\<lparr>failed_status := False\<rparr>))
   \<and> (failed_status st
        \<and> (failed_file st = None
             \<or> (\<exists>txt. failed_file st = Some txt
                  \<and> (json_load env txt = Inl JSONDecodeError
                       \<or> json_load env txt = Inr (JArr [])
                       \<or> json_load env txt = Inr (JObj []))))
        \<longrightarrow> batch_retry_rounds env (r # rounds) st
              = Returns () (st\<lparr>log := log st @ [Retrying], failed_status := False\<rparr>))"
proof (intro conjI impI)
  from translate_content_log [of env st]
  obtain n m where n: "n \<le> 3"
    and l: "log (state_of (translate_content env st))
              = log st @ replicate n Retrying @ replicate m FinalAttempt"
    by blast
  from l have "count_list (log (state_of (translate_content env st))) Retrying
                 = count_list (log st) Retrying + n"
    by (simp add: count_list_replicate)
  with n show "count_list (log (state_of (translate_content env st))) Retrying
                 \<le> count_list (log st) Retrying + 3"
    by simp
next
  assume "failed_status st \<and> retranslate_failed_content env st = Returns False s1"
  then show "batch_retry_rounds env (r # rounds) st = Returns () (s1\<lparr>failed_status := False\<rparr>)"
    by (cases rounds) simp_all
next
  assume a: "failed_status st
        \<and> (failed_file st = None
             \<or> (\<exists>txt. failed_file st = Some txt
                  \<and> (json_load env txt = Inl JSONDecodeError
                       \<or> json_load env txt = Inr (JArr [])
                       \<or> json_load env txt = Inr (JObj []))))"
  then have "retranslate_failed_content env st = Returns False (st\<lparr>log := log st @ [Retrying]\<rparr>)"
    by (auto simp add: retranslate_failed_content_def Let_def)
  with a show "batch_retry_rounds env (r # rounds) st
              = Returns () (st\<lparr>log := log st @ [Retrying], failed_status := False\<rparr>)"
    by (cases rounds) simp_all
qed

theorem batch_retry_tier_is_capped_witness:
  "count_list (log (state_of (translate_content (pipeline_env invoker_garbled) (queued_state [(1, ''a'')])))) Retrying
     \<le> count_list (log (queued_state [(1, ''a'')])) Retrying + 3
   \<and> batch_retry_rounds (pipeline_env invoker_garbled) [0, 1, 2] (queued_state [(1, ''a'')])
       = Returns () (after_fruitless_round\<lparr>failed_status := False\<rparr>)
   \<and> batch_retry_rounds (pipeline_env invoker_garbled) [0, 1, 2] (queued_state [])
       = Returns () ((queued_state [])\<lparr>log := log (queued_state []) @ [Retrying],
                                       failed_status := False\<rparr>)"
proof -
  let ?env = "pipeline_env invoker_garbled"
  have f1: "failed_status (queued_state [(1, ''a'')])"
    by code_simp
  have r1: "retranslate_failed_content ?env (queued_state [(1, ''a'')])
              = Returns False after_fruitless_round"
    by code_simp
  have f2: "failed_status (queued_state [])"
    by code_simp
  have q2: "failed_file (queued_state []) = Some ''[]''"
    by code_simp
  have l2: "json_load ?env ''[]'' = Inr (JArr [])"
    by code_simp
  note t1 = batch_retry_tier_is_capped
    [of ?env "queued_state [(1, ''a'')]" after_fruitless_round 0 "[1, 2]"]
  note t2 = batch_retry_tier_is_capped
    [of ?env "queued_state []" after_fruitless_round 0 "[1, 2]"]
  from t1 have c1: "count_list (log (state_of (translate_content ?env (queued_state [(1, ''a'')])))) Retrying
     \<le> count_list (log (queued_state [(1, ''a'')])) Retrying + 3"
    by (rule conjunct1)
  from t1 f1 r1 have c2: "batch_retry_rounds ?env [0, 1, 2] (queued_state [(1, ''a'')])
       = Returns () (after_fruitless_round\<lparr>failed_status := False\<rparr>)"
    by blast
  from t2 f2 q2 l2 have c3: "batch_retry_rounds ?env [0, 1, 2] (queued_state [])
       = Returns () ((queued_state [])\<lparr>log := log (queued_state []) @ [Retrying],
                                       failed_status := False\<rparr>)"
    by blast
  from c1 c2 c3 show ?thesis by (intro conjI)
qed

text \<open>
  C5. Claim: the line-by-line tier runs whenever entries remain in the queue after the
  batch retry, and is skipped only when none remain. The code looks at
  \<^verbatim>\<open>failed_status\<close> (line 108), which is true after the batch retry only when three
  rounds in a row reported a success. With collaborators that keep their contracts (the
  recorder leaves the queue file alone, the segmenter has a stream for a queue that
  holds entries, \<^verbatim>\<open>json.load\<close> reads \<^verbatim>\<open>[]\<close> as the empty list), a run that starts with
  the flag as \<^verbatim>\<open>__init__\<close> sets it (line 23), gets segments for its primary pass and
  returns, ends with no entry left in the Failure Queue, with the flag false and without
  a call of the tier: a round empties the queue file at line 143 and nothing writes it
  again, so the round after a success finds it empty. Entries thus never remain after
  the batch retry, and the tier is skipped with none left.
\<close>

theorem line_tier_skipped_with_no_entries_left:
  assumes rk: "recorder_keeps_queue env"
    and sq: "segmenter_streams_queue env"
    and empty: "json_load env ''[]'' = Inr (JArr [])"
    and flag: "failed_status st"
    and seg: "stream_segment_json env (src_file st) (previous_text st) = Some segments"
    and ret: "translate_content env st = Returns u st'"
  shows "\<not> entries_remain env st'
         \<and> count_list (log st') FinalAttempt = count_list (log st) FinalAttempt
         \<and> \<not> failed_status st'"
proof -
  let ?s0 = "st\<lparr>combined_previous_texts := []\<rparr>"
  from seg ret obtain tt s1 where prim: "primary_segments env segments Unbound ?s0 = Returns tt s1"
    by (cases "primary_segments env segments Unbound ?s0") (simp_all add: translate_content_def)
  from seg ret prim obtain u2 s2 where batch: "batch_retry_rounds env [0, 1, 2] s1 = Returns u2 s2"
    by (cases "batch_retry_rounds env [0, 1, 2] s1") (simp_all add: translate_content_def)
  from primary_segments_failed_status [of env segments Unbound ?s0] prim flag
  have f1: "failed_status s1" by simp
  from primary_segments_log [of env segments Unbound ?s0] prim
  have l1: "log s1 = log st" by simp
  from batch_retry_rounds_leaves_no_entries [OF rk sq empty f1 batch]
  have s2: "\<not> failed_status s2" "\<not> entries_remain env s2" by simp_all
  from seg prim batch s2(1) ret have st': "st' = s2"
    by (simp add: translate_content_def)
  from batch_retry_rounds_log [of "[0, 1, 2]" env s1] batch
  obtain n where "log s2 = log s1 @ replicate n Retrying" by auto
  with l1 have "count_list (log s2) FinalAttempt = count_list (log st) FinalAttempt"
    by (simp add: count_list_replicate)
  with s2 st' show ?thesis by simp
qed

theorem line_tier_skipped_with_no_entries_left_witness:
  "translate_content (pipeline_env invoker_late) (fresh_state one_unit)
     = Returns () (state_of (translate_content (pipeline_env invoker_late) (fresh_state one_unit)))
   \<and> calls (state_of (translate_content (pipeline_env invoker_late) (fresh_state one_unit))) = 3
   \<and> \<not> entries_remain (pipeline_env invoker_late)
         (state_of (translate_content (pipeline_env invoker_late) (fresh_state one_unit)))
   \<and> count_list (log (state_of (translate_content (pipeline_env invoker_late)
                                  (fresh_state one_unit)))) FinalAttempt
       = count_list (log (fresh_state one_unit)) FinalAttempt
   \<and> \<not> failed_status (state_of (translate_content (pipeline_env invoker_late)
                                   (fresh_state one_unit)))"
proof -
  let ?env = "pipeline_env invoker_late"
  let ?st = "fresh_state one_unit"
  have empty: "json_load ?env ''[]'' = Inr (JArr [])"
    by code_simp
  have flag: "failed_status ?st"
    by (simp add: fresh_state_def)
  have seg: "stream_segment_json ?env (src_file ?st) (previous_text ?st) = Some [one_unit]"
    by code_simp
  have ret: "translate_content ?env ?st = Returns () (state_of (translate_content ?env ?st))
               \<and> calls (state_of (translate_content ?env ?st)) = 3"
    by (rule returns_state_of [where P = "\<lambda>s. calls s = 3"]) code_simp
  from line_tier_skipped_with_no_entries_left
    [OF checking_recorder_keeps_queue unit_segmenter_streams_queue empty flag seg conjunct1 [OF ret]]
    ret
  show ?thesis by simp
qed

text \<open>
  C8. When the line-by-line tier runs on a queue of entries and returns, the entries
  whose two attempts both failed are exactly the ones it appended, each as
  \<^verbatim>\<open>{count, value}\<close> with its own unit id and source text and in the order of the queue.
  If there are any, the queue file holds what \<^verbatim>\<open>json.dump\<close> wrote for them (line 249).
  If there are none, the tier writes nothing after the empty array of line 202: it ends
  in the state its loop over the entries ended in, and with a recorder that keeps its
  contract and leaves the queue file alone that file holds the empty array. The theorem
  is about a call of \<^verbatim>\<open>_retranslate_failed_lines\<close> from any state.
\<close>

theorem lines_tier_persists_permanent_failures:
  assumes queue: "failed_file st = Some bytes"
    and loads: "json_load env bytes = Inr (JArr entries)"
    and some: "entries \<noteq> []"
    and returns: "retranslate_failed_lines env st = Returns u st'"
  shows "(permanent_failures env entries (st\<lparr>failed_file := Some ''[]''\<rparr>) \<noteq> []
            \<longrightarrow> failed_file st'
                  = Some (fst (json_dump env
                      (JArr (permanent_failures env entries (st\<lparr>failed_file := Some ''[]''\<rparr>))))))
         \<and> (permanent_failures env entries (st\<lparr>failed_file := Some ''[]''\<rparr>) = []
            \<longrightarrow> st' = state_of (lines_entries env entries [] (st\<lparr>failed_file := Some ''[]''\<rparr>)))
         \<and> (permanent_failures env entries (st\<lparr>failed_file := Some ''[]''\<rparr>) = []
              \<and> recorder_keeps_queue env
            \<longrightarrow> failed_file st' = Some ''[]'')"
proof -
  let ?s0 = "st\<lparr>failed_file := Some ''[]''\<rparr>"
  from queue loads some returns
  obtain nf s2 where loop: "lines_entries env entries [] ?s0 = Returns nf s2"
    and fin: "nf = [] \<longrightarrow> st' = s2"
      "nf \<noteq> [] \<longrightarrow> st' = s2\<lparr>failed_file := Some (fst (json_dump env (JArr nf)))\<rparr>"
    by (auto simp add: retranslate_failed_lines_def Let_def
        split: outcome.splits if_splits prod.splits option.splits)
  from lines_entries_result [OF loop] have nf: "nf = permanent_failures env entries ?s0"
    by simp
  have "recorder_keeps_queue env \<Longrightarrow> failed_file s2 = Some ''[]''"
    using lines_entries_failed_file [of env entries "[]" ?s0] loop by simp
  with fin nf loop show ?thesis by auto
qed

theorem lines_tier_persists_permanent_failures_witness:
  "failed_file (state_of (retranslate_failed_lines (pipeline_env invoker_second_unit)
                            (queued_state [(1, ''a''), (2, ''b'')])))
     = Some (queue_text [(1, ''a'')])
   \<and> failed_file (state_of (retranslate_failed_lines (pipeline_env invoker_unit1)
                                (queued_state [(1, ''a'')])))
     = Some ''[]''"
proof -
  let ?A = "pipeline_env invoker_second_unit"
  let ?a = "queued_state [(1, ''a''), (2, ''b'')]"
  let ?B = "pipeline_env invoker_unit1"
  let ?b = "queued_state [(1, ''a'')]"
  have qa: "failed_file ?a = Some (queue_text [(1, ''a''), (2, ''b'')])"
    by (simp add: queued_state_def)
  have la: "json_load ?A (queue_text [(1, ''a''), (2, ''b'')])
              = Inr (JArr [queue_entry 1 ''a'', queue_entry 2 ''b''])"
    by code_simp
  have ra: "retranslate_failed_lines ?A ?a = Returns () (state_of (retranslate_failed_lines ?A ?a))
              \<and> True"
    by (rule returns_state_of [where P = "\<lambda>s. True"]) code_simp
  have pa: "permanent_failures ?A [queue_entry 1 ''a'', queue_entry 2 ''b'']
              (?a\<lparr>failed_file := Some ''[]''\<rparr>) = [queue_entry 1 ''a'']"
    by code_simp
  have da: "fst (json_dump ?A (JArr [queue_entry 1 ''a''])) = queue_text [(1, ''a'')]"
    by (simp add: pipeline_env_def json_dump_file_def queue_text_def)
  have qb: "failed_file ?b = Some (queue_text [(1, ''a'')])"
    by (simp add: queued_state_def)
  have lb: "json_load ?B (queue_text [(1, ''a'')]) = Inr (JArr [queue_entry 1 ''a''])"
    by code_simp
  have rb: "retranslate_failed_lines ?B ?b = Returns () (state_of (retranslate_failed_lines ?B ?b))
              \<and> True"
    by (rule returns_state_of [where P = "\<lambda>s. True"]) code_simp
  have pb: "permanent_failures ?B [queue_entry 1 ''a''] (?b\<lparr>failed_file := Some ''[]''\<rparr>) = []"
    by code_simp
  have na: "[queue_entry 1 ''a'', queue_entry 2 ''b''] \<noteq> []"
    by simp
  from conjunct1 [OF lines_tier_persists_permanent_failures [OF qa la na conjunct1 [OF ra]]]
    pa da
  have A: "failed_file (state_of (retranslate_failed_lines ?A ?a))
             = Some (queue_text [(1, ''a'')])"
    by simp
  have nb: "[queue_entry 1 ''a''] \<noteq> []"
    by simp
  from conjunct2 [OF conjunct2
      [OF lines_tier_persists_permanent_failures [OF qb lb nb conjunct1 [OF rb]]]]
    pb checking_recorder_keeps_queue [of invoker_unit1]
  have B: "failed_file (state_of (retranslate_failed_lines ?B ?b)) = Some ''[]''"
    by blast
  from A B show ?thesis by (rule conjI)
qed

text \<open>
  C9. Claim: \<^verbatim>\<open>_mark_segment_as_failed\<close> leaves the queue holding the entries it had,
  followed by one entry per key of the segment. The code opens the queue file with
  \<^verbatim>\<open>"r+"\<close>, takes an undecodable file for the empty queue (line 276), and writes the new
  array from the start of the file without truncating it (lines 289 and 290). On a queue
  file that holds 60 letters \<^verbatim>\<open>x\<close> and the segment \<^verbatim>\<open>{"1": "a"}\<close>, the file ends as the
  56 bytes of the array with the entry of unit 1, followed by the last 4 letters;
  \<^verbatim>\<open>json.load\<close> rejects that text, so the queue holds no entry and unit 1 is not read
  back. The writes of lines 142, 202 and 248 open the file with \<^verbatim>\<open>"w"\<close>.
\<close>

theorem mark_segment_as_failed_keeps_old_tail:
  "json_loads (pipeline_env invoker_down) one_unit = Inr (JObj [(''1'', JStr ''a'')])
   \<and> length (queue_text [(1, ''a'')]) = 56
   \<and> mark_segment_as_failed (pipeline_env invoker_down) one_unit stale_queue_state
       = Returns () (stale_queue_state\<lparr>failed_file := Some (queue_text [(1, ''a'')] @ ''xxxx'')\<rparr>)
   \<and> json_load (pipeline_env invoker_down) (queue_text [(1, ''a'')] @ ''xxxx'')
       = Inl JSONDecodeError
   \<and> \<not> entries_remain (pipeline_env invoker_down)
         (state_of (mark_segment_as_failed (pipeline_env invoker_down) one_unit stale_queue_state))"
  by code_simp

text \<open>
  C10. A Failure Queue entry is \<^verbatim>\<open>{count: unit_id, value: source_text}\<close>, the unit id an
  integer and the source text a string. For every such entry
  \<^verbatim>\<open>_convert_failed_segments_to_json\<close> returns a text that \<^verbatim>\<open>json.loads\<close> reads back as
  the object with the single key \<^verbatim>\<open>str(count)\<close> and the entry's value. The \<^verbatim>\<open>json\<close>
  module is the model of the first section.
\<close>

theorem convert_failed_segments_to_json_roundtrip:
  assumes count: "getitem entry ''count'' = Inr (JInt n)"
    and val: "getitem entry ''value'' = Inr (JStr s)"
    and dumps: "json_dumps env = json_dumps_indent4"
  shows "\<exists>request. convert_failed_segments_to_json env entry = Inr request
           \<and> json_loads_text request = Some (JObj [(str_int n, JStr s)])"
proof -
  from count val dumps
  have "convert_failed_segments_to_json env entry
          = Inr (json_dumps_indent4 (JObj [(str_int n, JStr s)]))"
    by (simp add: convert_failed_segments_to_json_def)
  moreover have "json_loads_text (json_dumps_indent4 (JObj [(str_int n, JStr s)]))
                   = Some (JObj [(str_int n, JStr s)])"
    by (rule json_loads_single_pair)
  ultimately show ?thesis by blast
qed

theorem convert_failed_segments_to_json_roundtrip_witness:
  "convert_failed_segments_to_json (pipeline_env invoker_down) (queue_entry 1 ''a'') = Inr one_unit
   \<and> json_loads_text one_unit = Some (JObj [(''1'', JStr ''a'')])"
proof -
  let ?env = "pipeline_env invoker_down"
  have g1: "getitem (queue_entry 1 ''a'') ''count'' = Inr (JInt 1)"
    by (simp add: queue_entry_def)
  have g2: "getitem (queue_entry 1 ''a'') ''value'' = Inr (JStr ''a'')"
    by (simp add: queue_entry_def)
  have d: "json_dumps ?env = json_dumps_indent4"
    by (simp add: pipeline_env_def)
  from convert_failed_segments_to_json_roundtrip [OF g1 g2 d]
  obtain request where r: "convert_failed_segments_to_json ?env (queue_entry 1 ''a'') = Inr request"
    and l: "json_loads_text request = Some (JObj [(str_int 1, JStr ''a'')])"
    by blast
  have c: "convert_failed_segments_to_json ?env (queue_entry 1 ''a'') = Inr one_unit"
    by code_simp
  have s1: "str_int 1 = ''1''"
    by code_simp
  from r c have "request = one_unit" by simp
  with l s1 c show ?thesis by simp
qed

end
